theory Spec2Isabelle
  imports Complex_Main "HOL-Library.Sublist"
begin

section \<open>Batch execution engine of the Grok Imagine Video server\<close>

text \<open>
  The development embeds \<^verbatim>\<open>utils/batch-manager.ts\<close> (class \<^verbatim>\<open>Semaphore\<close>, class
  \<^verbatim>\<open>BatchManager\<close> with \<^verbatim>\<open>estimateBatchCost\<close>, \<^verbatim>\<open>executeBatch\<close>,
  \<^verbatim>\<open>executeJob\<close>) and \<^verbatim>\<open>utils/batch-config.ts\<close> (\<^verbatim>\<open>validateBatchConfig\<close>,
  \<^verbatim>\<open>validateJobConfig\<close>, \<^verbatim>\<open>validateRetryPolicy\<close>, \<^verbatim>\<open>resolveOutputPath\<close>).

  Conventions of the embedding:
  \<^item> an optional field \<^verbatim>\<open>f?: T\<close> is a field of type \<open>T option\<close>, \<open>None\<close> for
    \<^verbatim>\<open>undefined\<close>;
  \<^item> JavaScript numbers that count retries, polls or milliseconds are \<open>int\<close>;
    \<^verbatim>\<open>max_concurrent\<close> and the permits of the semaphore are \<open>rat\<close>, since the
    validation has no test for whole numbers and a fraction such as 1.5 reaches the
    semaphore; durations in seconds and costs are \<open>rat\<close>, so the arithmetic of the
    cost estimate is exact where the program rounds to a double;
  \<^item> strings are byte strings: \<^verbatim>\<open>toLowerCase\<close> folds the ASCII letters and
    \<^verbatim>\<open>trim\<close> strips the ASCII white space only;
  \<^item> a \<^verbatim>\<open>throw\<close> is the \<open>Inl\<close> branch of a sum;
  \<^item> the wall clock (\<^verbatim>\<open>Date.now()\<close>) is not an input of the model, so the fields
    \<^verbatim>\<open>duration_ms\<close>, \<^verbatim>\<open>started_at\<close>, \<^verbatim>\<open>finished_at\<close> and
    \<^verbatim>\<open>total_duration_ms\<close> of the reports are left out, and \<^verbatim>\<open>debugLog\<close> is
    dropped.
\<close>

subsection \<open>Data model (\<^verbatim>\<open>types/batch.ts\<close>, \<^verbatim>\<open>types/tools.ts\<close>)\<close>

record BatchJobConfig =
  prompt :: string
  output_path :: "string option"
  model :: "string option"
  duration :: "rat option"
  aspect_ratio :: "string option"
  resolution :: "string option"
  image_url :: "string option"
  image_path :: "string option"
  video_url :: "string option"

record RetryPolicy =
  max_retries :: "int option"
  retry_delay_ms :: "int option"
  retry_on_errors :: "string list option"

record BatchConfig =
  jobs :: "BatchJobConfig list"
  output_dir :: "string option"
  max_concurrent :: "rat option"
  timeout :: "int option"
  poll_interval :: "int option"
  max_poll_attempts :: "int option"
  retry_policy :: "RetryPolicy option"
  default_model :: "string option"
  default_resolution :: "string option"
  default_aspect_ratio :: "string option"
  default_duration :: "rat option"

datatype job_status = completed | failed | cancelled

record BatchJobResult =
  index :: nat
  res_prompt :: string
  status :: job_status
  res_output_path :: "string option"
  res_video_url :: "string option"
  error :: "string option"
  video_duration :: "rat option"
  is_edit :: "bool option"
  is_image_to_video :: "bool option"
  request_id :: "string option"

record BatchResult =
  total :: nat
  succeeded :: nat
  failed_count :: nat
  cancelled_count :: nat
  results :: "BatchJobResult list"
  estimated_cost :: "rat option"

record BatchExecutionOptions =
  allowAnyPath :: "bool option"

datatype job_type = generation | image_to_video | edit

record breakdown_item =
  item_type :: job_type
  item_count :: nat
  item_totalDuration :: rat
  costMin :: rat
  costMax :: rat

record CostEstimate =
  totalJobs :: nat
  totalVideoDuration :: rat
  estimatedCostMin :: rat
  estimatedCostMax :: rat
  breakdown :: "breakdown_item list"

definition MODELS :: "string list" where
  "MODELS = [''grok-imagine-video'']"

definition ASPECT_RATIOS :: "string list" where
  "ASPECT_RATIOS = [''16:9'', ''4:3'', ''1:1'', ''9:16'', ''3:4'', ''3:2'', ''2:3'']"

definition RESOLUTIONS :: "string list" where
  "RESOLUTIONS = [''720p'', ''480p'']"

definition MIN_DURATION :: rat where "MIN_DURATION = 1"
definition MAX_DURATION :: rat where "MAX_DURATION = 15"
definition DEFAULT_DURATION :: rat where "DEFAULT_DURATION = 5"
definition DEFAULT_POLL_INTERVAL :: int where "DEFAULT_POLL_INTERVAL = 5000"
definition DEFAULT_MAX_POLL_ATTEMPTS :: int where "DEFAULT_MAX_POLL_ATTEMPTS = 120"

subsection \<open>JavaScript idioms\<close>

text \<open>\<^verbatim>\<open>!!s\<close> for an optional string: \<^verbatim>\<open>undefined\<close> and the empty string are falsy.\<close>

definition truthy :: "string option \<Rightarrow> bool" where
  "truthy v = (case v of None \<Rightarrow> False | Some s \<Rightarrow> s \<noteq> [])"

text \<open>\<^verbatim>\<open>a || b\<close> on optional strings and on optional numbers (\<^verbatim>\<open>0\<close> is falsy), and
  \<^verbatim>\<open>a ?? b\<close>, which only replaces \<^verbatim>\<open>undefined\<close>.\<close>

definition or_str :: "string option \<Rightarrow> string option \<Rightarrow> string option" where
  "or_str a b = (if truthy a then a else b)"

definition or_int :: "int option \<Rightarrow> int \<Rightarrow> int" where
  "or_int a b = (case a of None \<Rightarrow> b | Some n \<Rightarrow> if n = 0 then b else n)"

definition or_num :: "rat option \<Rightarrow> rat \<Rightarrow> rat" where
  "or_num a b = (case a of None \<Rightarrow> b | Some n \<Rightarrow> if n = 0 then b else n)"

definition or_rat :: "rat option \<Rightarrow> rat option \<Rightarrow> rat option" where
  "or_rat a b = (case a of None \<Rightarrow> b | Some n \<Rightarrow> if n = 0 then b else Some n)"

definition nullish :: "'a option \<Rightarrow> 'a \<Rightarrow> 'a" where
  "nullish a b = (case a of None \<Rightarrow> b | Some v \<Rightarrow> v)"

subsection \<open>Cost estimation (\<^verbatim>\<open>BatchManager.estimateBatchCost\<close>)\<close>

text \<open>The table \<^verbatim>\<open>VIDEO_COSTS\<close>: 0.05, 0.05 (plus 0.01 per image) and 0.07 per second.\<close>

definition perSecond :: "job_type \<Rightarrow> rat" where
  "perSecond t = (case t of generation \<Rightarrow> 5 / 100 | image_to_video \<Rightarrow> 5 / 100 | edit \<Rightarrow> 7 / 100)"

definition imageBonus :: rat where
  "imageBonus = 1 / 100"

record type_data =
  count :: nat
  totalDuration :: rat

text \<open>The body of the first loop: the two flags, then the type and the duration of one job.\<close>

definition estimate_isEdit :: "BatchJobConfig \<Rightarrow> bool" where
  "estimate_isEdit job = truthy (video_url job)"

definition estimate_isImageToVideo :: "BatchJobConfig \<Rightarrow> bool" where
  "estimate_isImageToVideo job = (truthy (image_url job) \<or> truthy (image_path job))"

definition estimate_type :: "BatchJobConfig \<Rightarrow> job_type" where
  "estimate_type job =
     (if estimate_isEdit job then edit
      else if estimate_isImageToVideo job then image_to_video
      else generation)"

definition estimate_duration :: "rat \<Rightarrow> BatchJobConfig \<Rightarrow> rat" where
  "estimate_duration defaultDuration job =
     (if estimate_isEdit job then 5
      else if estimate_isImageToVideo job then nullish (duration job) defaultDuration
      else nullish (duration job) defaultDuration)"

definition typeCounts_init :: "job_type \<Rightarrow> type_data" where
  "typeCounts_init = (\<lambda>t. \<lparr>count = 0, totalDuration = 0\<rparr>)"

definition count_job :: "rat \<Rightarrow> (job_type \<Rightarrow> type_data) \<Rightarrow> BatchJobConfig \<Rightarrow> (job_type \<Rightarrow> type_data)" where
  "count_job defaultDuration typeCounts job =
     (let t = estimate_type job; d = estimate_duration defaultDuration job
      in typeCounts(t := \<lparr>count = count (typeCounts t) + 1,
                          totalDuration = totalDuration (typeCounts t) + d\<rparr>))"

definition count_jobs :: "BatchConfig \<Rightarrow> (job_type \<Rightarrow> type_data)" where
  "count_jobs config =
     foldl (count_job (nullish (default_duration config) DEFAULT_DURATION)) typeCounts_init (jobs config)"

text \<open>The second loop runs over \<^verbatim>\<open>Object.entries(typeCounts)\<close>, that is over the three
  keys in the order of the object literal, and skips the empty buckets.\<close>

definition type_cost :: "job_type \<Rightarrow> type_data \<Rightarrow> rat" where
  "type_cost t data =
     (let cost = perSecond t * totalDuration data
      in if t = image_to_video then cost + imageBonus * of_nat (count data) else cost)"

fun add_buckets :: "(job_type \<Rightarrow> type_data) \<Rightarrow> job_type list \<Rightarrow> CostEstimate \<Rightarrow> CostEstimate" where
  "add_buckets typeCounts [] acc = acc"
| "add_buckets typeCounts (t # ts) acc =
     (let data = typeCounts t
      in if count data = 0 then add_buckets typeCounts ts acc
         else
           (let cost = type_cost t data
            in add_buckets typeCounts ts
                 (acc\<lparr>breakdown := breakdown acc @
                          [\<lparr>item_type = t, item_count = count data,
                            item_totalDuration = totalDuration data,
                            costMin = cost, costMax = cost * (12 / 10)\<rparr>],
                       estimatedCostMin := estimatedCostMin acc + cost,
                       estimatedCostMax := estimatedCostMax acc + cost * (12 / 10),
                       totalVideoDuration := totalVideoDuration acc + totalDuration data\<rparr>)))"

definition estimateBatchCost :: "BatchConfig \<Rightarrow> CostEstimate" where
  "estimateBatchCost config =
     add_buckets (count_jobs config) [generation, image_to_video, edit]
       \<lparr>totalJobs = length (jobs config), totalVideoDuration = 0,
        estimatedCostMin = 0, estimatedCostMax = 0, breakdown = []\<rparr>"

subsection \<open>Strings\<close>

text \<open>\<^verbatim>\<open>String.prototype.toLowerCase\<close> on the ASCII letters.\<close>

definition lower_char :: "char \<Rightarrow> char" where
  "lower_char c =
     (case map_of (zip ''ABCDEFGHIJKLMNOPQRSTUVWXYZ'' ''abcdefghijklmnopqrstuvwxyz'') c of
        Some l \<Rightarrow> l
      | None \<Rightarrow> c)"

definition toLowerCase :: "string \<Rightarrow> string" where
  "toLowerCase s = map lower_char s"

text \<open>\<^verbatim>\<open>s.startsWith(p)\<close> and \<^verbatim>\<open>s.includes(p)\<close>.\<close>

fun startsWith :: "string \<Rightarrow> string \<Rightarrow> bool" where
  "startsWith s [] = True"
| "startsWith [] (p # ps) = False"
| "startsWith (c # cs) (p # ps) = (c = p \<and> startsWith cs ps)"

fun includes_str :: "string \<Rightarrow> string \<Rightarrow> bool" where
  "includes_str [] p = startsWith [] p"
| "includes_str (c # cs) p = (startsWith (c # cs) p \<or> includes_str cs p)"

text \<open>\<^verbatim>\<open>String.prototype.trim\<close>: white space is the blank and the control characters
  tab, line feed, vertical tab, form feed and carriage return.\<close>

definition is_space :: "char \<Rightarrow> bool" where
  "is_space c = (c = CHR '' '' \<or> c \<in> set [CHR 0x09, CHR 0x0A, CHR 0x0B, CHR 0x0C, CHR 0x0D])"

definition trim :: "string \<Rightarrow> string" where
  "trim s = rev (dropWhile is_space (rev (dropWhile is_space s)))"

text \<open>\<^verbatim>\<open>xs.join(sep)\<close> and the decimal rendering of an index inside a template string.\<close>

fun join :: "string \<Rightarrow> string list \<Rightarrow> string" where
  "join sep [] = []"
| "join sep [x] = x"
| "join sep (x # y # ys) = x @ sep @ join sep (y # ys)"

definition digit_char :: "nat \<Rightarrow> char" where
  "digit_char d = ''0123456789'' ! d"

fun show_nat :: "nat \<Rightarrow> string" where
  "show_nat n = (if n < 10 then [digit_char n] else show_nat (n div 10) @ [digit_char (n mod 10)])"

declare show_nat.simps [simp del]

subsection \<open>Paths (\<^verbatim>\<open>path.isAbsolute\<close>, \<^verbatim>\<open>path.resolve\<close>, \<^verbatim>\<open>path.join\<close> of Node, POSIX flavour)\<close>

text \<open>
  The three functions belong to the Node runtime, not to the repository; they are written
  out after the runtime's \<^verbatim>\<open>lib/path.js\<close>: a path is cut at the slashes, empty and
  \<^verbatim>\<open>.\<close> segments are dropped, and \<^verbatim>\<open>..\<close> removes the segment before it.
  A relative path that climbs above its start keeps the \<^verbatim>\<open>..\<close>; an absolute one
  stays at the root.
\<close>

definition isAbsolute :: "string \<Rightarrow> bool" where
  "isAbsolute p = (case p of [] \<Rightarrow> False | c # _ \<Rightarrow> c = CHR ''/'')"

fun split_slash :: "string \<Rightarrow> string list" where
  "split_slash [] = [[]]"
| "split_slash (c # cs) =
     (if c = CHR ''/'' then [] # split_slash cs
      else (case split_slash cs of [] \<Rightarrow> [[c]] | seg # segs \<Rightarrow> (c # seg) # segs))"

text \<open>\<^verbatim>\<open>normalizeString\<close>: the segments seen so far are kept in reverse.\<close>

fun normalize_segments :: "bool \<Rightarrow> string list \<Rightarrow> string list \<Rightarrow> string list" where
  "normalize_segments allowAboveRoot acc [] = rev acc"
| "normalize_segments allowAboveRoot acc (seg # segs) =
     (if seg = [] \<or> seg = ''.'' then normalize_segments allowAboveRoot acc segs
      else if seg = ''..'' then
        (case acc of
           [] \<Rightarrow> normalize_segments allowAboveRoot (if allowAboveRoot then [''..''] else []) segs
         | a # as \<Rightarrow>
             if a = ''..'' then normalize_segments allowAboveRoot (''..'' # a # as) segs
             else normalize_segments allowAboveRoot as segs)
      else normalize_segments allowAboveRoot (seg # acc) segs)"

definition resolve_segments :: "string \<Rightarrow> string \<Rightarrow> string list" where
  "resolve_segments cwd p =
     normalize_segments False []
       (split_slash (if isAbsolute p then p else if p = [] then cwd else cwd @ ''/'' @ p))"

definition path_resolve :: "string \<Rightarrow> string \<Rightarrow> string" where
  "path_resolve cwd p = CHR ''/'' # join ''/'' (resolve_segments cwd p)"

definition path_normalize :: "string \<Rightarrow> string" where
  "path_normalize p =
     (if p = [] then ''.''
      else
        (let absolute = isAbsolute p;
             trailingSeparator = (last p = CHR ''/'');
             body = join ''/'' (normalize_segments (\<not> absolute) [] (split_slash p))
         in if body = [] then (if absolute then ''/'' else if trailingSeparator then ''./'' else ''.'')
            else (if absolute then ''/'' else []) @ body @ (if trailingSeparator then ''/'' else [])))"

definition path_join :: "string \<Rightarrow> string \<Rightarrow> string" where
  "path_join a b =
     (let joined = join ''/'' (filter (\<lambda>s. s \<noteq> []) [a, b])
      in if joined = [] then ''.'' else path_normalize joined)"

text \<open>The environment a run reads: \<^verbatim>\<open>process.env.OUTPUT_DIR\<close> and
  \<^verbatim>\<open>process.cwd()\<close>.\<close>

record environment =
  OUTPUT_DIR :: "string option"
  cwd :: string

definition getDefaultOutputDirectory :: "environment \<Rightarrow> string" where
  "getDefaultOutputDirectory env = (if truthy (OUTPUT_DIR env) then the (OUTPUT_DIR env) else cwd env)"

subsection \<open>Validation (\<^verbatim>\<open>utils/batch-config.ts\<close>)\<close>

text \<open>What a function of the engine can throw: a \<^verbatim>\<open>BatchConfigError\<close> with its message,
  or the rejection of a job promise, named after the job whose promise rejected.\<close>

datatype js_error = BatchConfigError string | InternalFault nat

text \<open>\<^verbatim>\<open>validateJobConfig\<close>: the checks in the order of the source; the first one
  that fails throws. The \<^verbatim>\<open>typeof\<close> tests are decided by the types of the fields.\<close>

definition validateJobConfig :: "BatchJobConfig \<Rightarrow> nat \<Rightarrow> js_error + unit" where
  "validateJobConfig job idx =
     (let pre = ''Job '' @ show_nat (idx + 1);
          isEditJob = truthy (video_url job);
          isImageToVideoJob = truthy (image_url job)
      in
        if prompt job = [] \<or> length (trim (prompt job)) = 0 then
          Inl (BatchConfigError (pre @ '': prompt is required and must be a non-empty string''))
        else if (case model job of None \<Rightarrow> False | Some m \<Rightarrow> m \<notin> set MODELS) then
          Inl (BatchConfigError (pre @ '': Invalid model \"'' @ the (model job) @
                 ''\". Must be one of: '' @ join '', '' MODELS))
        else if duration job \<noteq> None \<and> isEditJob then
          Inl (BatchConfigError (pre @
                 '': duration cannot be specified for edit jobs (inherited from source video)''))
        else if (case duration job of None \<Rightarrow> False
                 | Some d \<Rightarrow> d < MIN_DURATION \<or> d > MAX_DURATION) then
          Inl (BatchConfigError (pre @ '': duration must be between 1 and 15 seconds''))
        else if aspect_ratio job \<noteq> None \<and> isEditJob then
          Inl (BatchConfigError (pre @ '': aspect_ratio cannot be specified for edit jobs''))
        else if (case aspect_ratio job of None \<Rightarrow> False | Some a \<Rightarrow> a \<notin> set ASPECT_RATIOS) then
          Inl (BatchConfigError (pre @ '': Invalid aspect_ratio \"'' @ the (aspect_ratio job) @
                 ''\". Must be one of: '' @ join '', '' ASPECT_RATIOS))
        else if (case resolution job of None \<Rightarrow> False | Some r \<Rightarrow> r \<notin> set RESOLUTIONS) then
          Inl (BatchConfigError (pre @ '': Invalid resolution \"'' @ the (resolution job) @
                 ''\". Must be one of: '' @ join '', '' RESOLUTIONS))
        else if isEditJob \<and> isImageToVideoJob then
          Inl (BatchConfigError (pre @ '': Cannot specify both video_url and image_url''))
        else Inr ())"

text \<open>\<^verbatim>\<open>validateRetryPolicy\<close>; that \<^verbatim>\<open>retry_on_errors\<close> is an array of strings is
  decided by its type.\<close>

definition validateRetryPolicy :: "RetryPolicy \<Rightarrow> js_error + unit" where
  "validateRetryPolicy policy =
     (if (case max_retries policy of None \<Rightarrow> False | Some n \<Rightarrow> n < 0 \<or> n > 5) then
        Inl (BatchConfigError ''retry_policy.max_retries must be between 0 and 5'')
      else if (case retry_delay_ms policy of None \<Rightarrow> False | Some n \<Rightarrow> n < 100 \<or> n > 60000) then
        Inl (BatchConfigError ''retry_policy.retry_delay_ms must be between 100 and 60000'')
      else Inr ())"

text \<open>\<^verbatim>\<open>config.jobs.forEach((job, index) => validateJobConfig(job, index))\<close>.\<close>

fun validateJobs :: "BatchJobConfig list \<Rightarrow> nat \<Rightarrow> js_error + unit" where
  "validateJobs [] idx = Inr ()"
| "validateJobs (job # rest) idx =
     (case validateJobConfig job idx of
        Inl e \<Rightarrow> Inl e
      | Inr _ \<Rightarrow> validateJobs rest (idx + 1))"

definition validateBatchConfig :: "BatchConfig \<Rightarrow> js_error + unit" where
  "validateBatchConfig config =
     (if length (jobs config) = 0 then Inl (BatchConfigError ''Jobs array cannot be empty'')
      else if length (jobs config) > 100 then
        Inl (BatchConfigError ''Maximum 100 jobs allowed per batch'')
      else
        (case validateJobs (jobs config) 0 of
           Inl e \<Rightarrow> Inl e
         | Inr _ \<Rightarrow>
             if (case max_concurrent config of None \<Rightarrow> False | Some n \<Rightarrow> n < 1 \<or> n > 10) then
               Inl (BatchConfigError ''max_concurrent must be a number between 1 and 10'')
             else if (case timeout config of None \<Rightarrow> False | Some n \<Rightarrow> n < 1000 \<or> n > 3600000) then
               Inl (BatchConfigError ''timeout must be between 1000 and 3600000 milliseconds'')
             else if (case poll_interval config of None \<Rightarrow> False
                      | Some n \<Rightarrow> n < 1000 \<or> n > 60000) then
               Inl (BatchConfigError ''poll_interval must be between 1000 and 60000 milliseconds'')
             else if (case max_poll_attempts config of None \<Rightarrow> False
                      | Some n \<Rightarrow> n < 1 \<or> n > 1000) then
               Inl (BatchConfigError ''max_poll_attempts must be between 1 and 1000'')
             else
               (case (case retry_policy config of None \<Rightarrow> Inr ()
                      | Some policy \<Rightarrow> validateRetryPolicy policy) of
                  Inl e \<Rightarrow> Inl e
                | Inr _ \<Rightarrow>
                    if (case default_model config of None \<Rightarrow> False | Some m \<Rightarrow> m \<notin> set MODELS) then
                      Inl (BatchConfigError (''Invalid default_model: '' @ the (default_model config) @
                             ''. Must be one of: '' @ join '', '' MODELS))
                    else if (case default_resolution config of None \<Rightarrow> False
                             | Some r \<Rightarrow> r \<notin> set RESOLUTIONS) then
                      Inl (BatchConfigError (''Invalid default_resolution: '' @
                             the (default_resolution config) @
                             ''. Must be one of: '' @ join '', '' RESOLUTIONS))
                    else if (case default_aspect_ratio config of None \<Rightarrow> False
                             | Some a \<Rightarrow> a \<notin> set ASPECT_RATIOS) then
                      Inl (BatchConfigError (''Invalid default_aspect_ratio: '' @
                             the (default_aspect_ratio config) @
                             ''. Must be one of: '' @ join '', '' ASPECT_RATIOS))
                    else if (case default_duration config of None \<Rightarrow> False
                             | Some d \<Rightarrow> d < MIN_DURATION \<or> d > MAX_DURATION) then
                      Inl (BatchConfigError ''default_duration must be between 1 and 15 seconds'')
                    else Inr ())))"

subsection \<open>Output paths (\<^verbatim>\<open>resolveOutputPath\<close>)\<close>

definition resolveOutputPath ::
  "environment \<Rightarrow> BatchJobConfig \<Rightarrow> nat \<Rightarrow> string \<Rightarrow> bool \<Rightarrow> js_error + string" where
  "resolveOutputPath env job idx outputDir allowAny =
     (if truthy (output_path job) then
        (let out = the (output_path job)
         in if isAbsolute out then
              (if \<not> allowAny \<and>
                  \<not> startsWith (path_resolve (cwd env) out) (path_resolve (cwd env) outputDir)
               then Inl (BatchConfigError (''Job '' @ show_nat (idx + 1) @
                      '': Output path must be within output directory. Use --allow-any-path to override.''))
               else Inr out)
            else Inr (path_join outputDir out))
      else
        (let isEditJob = truthy (video_url job);
             isImageToVideoJob = truthy (image_url job);
             pre = (if isEditJob then ''edited''
                    else if isImageToVideoJob then ''animated'' else ''generated'')
         in Inr (path_join outputDir (pre @ ''_'' @ show_nat (idx + 1) @ ''.mp4''))))"

text \<open>A path lies inside a directory when, after \<^verbatim>\<open>path.resolve\<close>, the segments of the
  directory are the first segments of the path.\<close>

definition inside_directory :: "string \<Rightarrow> string \<Rightarrow> string \<Rightarrow> bool" where
  "inside_directory cwd' p dir = prefix (resolve_segments cwd' dir) (resolve_segments cwd' p)"

subsection \<open>The external executor (\<^verbatim>\<open>generateVideo\<close>, \<^verbatim>\<open>editVideo\<close>)\<close>

text \<open>
  The two executors talk to the remote service; the batch engine only sees what they
  return or throw. A call is the executor chosen together with its arguments, and the
  outside world is a function that gives, for a call and the number of calls made before
  it for the same job, what that call does: it returns a \<^verbatim>\<open>VideoGenerationResult\<close>
  or throws an \<^verbatim>\<open>Error\<close> object (both executors wrap whatever goes wrong in one), of
  which the engine reads \<^verbatim>\<open>message\<close> and, for an empty message, \<^verbatim>\<open>String(error)\<close>.
\<close>

record EditVideoParams =
  ev_prompt :: string
  ev_video_url :: string
  ev_output_path :: string
  ev_model :: "string option"

record GenerateVideoParams =
  gv_prompt :: string
  gv_output_path :: string
  gv_model :: "string option"
  gv_duration :: "rat option"
  gv_aspect_ratio :: "string option"
  gv_resolution :: "string option"
  gv_image_url :: "string option"
  gv_image_path :: "string option"

datatype exec_call =
  EditVideo string EditVideoParams int int
| GenerateVideo string GenerateVideoParams int int

record VideoGenerationResult =
  success :: bool
  url :: "string option"
  vg_output_path :: "string option"
  vg_duration :: "rat option"
  vg_error :: "string option"
  vg_request_id :: "string option"

record thrown_error =
  message :: string
  to_string :: string

datatype exec_outcome = Returned VideoGenerationResult | Threw thrown_error

type_synonym executor = "exec_call \<Rightarrow> nat \<Rightarrow> exec_outcome"

subsection \<open>One job with its retries (\<^verbatim>\<open>BatchManager.executeJob\<close>)\<close>

definition isEditJob :: "BatchJobConfig \<Rightarrow> bool" where
  "isEditJob job = truthy (video_url job)"

definition isImageToVideoJob :: "BatchJobConfig \<Rightarrow> bool" where
  "isImageToVideoJob job = (truthy (image_url job) \<or> truthy (image_path job))"

definition retryPolicy :: "BatchConfig \<Rightarrow> RetryPolicy" where
  "retryPolicy config =
     (case retry_policy config of
        Some policy \<Rightarrow> policy
      | None \<Rightarrow> \<lparr>max_retries = Some 2, retry_delay_ms = Some 1000, retry_on_errors = None\<rparr>)"

definition maxRetries :: "BatchConfig \<Rightarrow> int" where
  "maxRetries config = nullish (max_retries (retryPolicy config)) 2"

definition retryDelay :: "BatchConfig \<Rightarrow> int" where
  "retryDelay config = nullish (retry_delay_ms (retryPolicy config)) 1000"

definition retryPatterns :: "BatchConfig \<Rightarrow> string list" where
  "retryPatterns config =
     nullish (retry_on_errors (retryPolicy config)) [''rate_limit'', ''timeout'', ''429'', ''503'']"

text \<open>The call made in every attempt (lines 280 to 300).\<close>

definition dispatch :: "string \<Rightarrow> BatchJobConfig \<Rightarrow> string \<Rightarrow> BatchConfig \<Rightarrow> int \<Rightarrow> int \<Rightarrow> exec_call" where
  "dispatch apiKey job outputPath config pollInterval maxPollAttempts =
     (if isEditJob job then
        EditVideo apiKey
          \<lparr>ev_prompt = prompt job, ev_video_url = the (video_url job),
           ev_output_path = outputPath,
           ev_model = or_str (model job) (default_model config)\<rparr>
          pollInterval maxPollAttempts
      else
        GenerateVideo apiKey
          \<lparr>gv_prompt = prompt job, gv_output_path = outputPath,
           gv_model = or_str (model job) (default_model config),
           gv_duration = or_rat (duration job) (default_duration config),
           gv_aspect_ratio = or_str (aspect_ratio job) (default_aspect_ratio config),
           gv_resolution = or_str (resolution job) (default_resolution config),
           gv_image_url = image_url job, gv_image_path = image_path job\<rparr>
          pollInterval maxPollAttempts)"

text \<open>\<^verbatim>\<open>error.message || String(error)\<close>.\<close>

definition error_text :: "thrown_error \<Rightarrow> string" where
  "error_text e = (if message e \<noteq> [] then message e else to_string e)"

text \<open>\<^verbatim>\<open>retryPatterns.some((pattern) => lastError.toLowerCase().includes(pattern.toLowerCase()))\<close>
  and the flag \<^verbatim>\<open>shouldRetry\<close> of lines 338 to 342.\<close>

definition matches_pattern :: "string list \<Rightarrow> string \<Rightarrow> bool" where
  "matches_pattern patterns lastError =
     list_ex (\<lambda>pattern. includes_str (toLowerCase lastError) (toLowerCase pattern)) patterns"

definition shouldRetry :: "nat \<Rightarrow> int \<Rightarrow> string list \<Rightarrow> string \<Rightarrow> bool" where
  "shouldRetry attempt maxRetries' patterns lastError =
     (int attempt < maxRetries' \<and> matches_pattern patterns lastError)"

definition completed_result ::
  "BatchJobConfig \<Rightarrow> nat \<Rightarrow> string \<Rightarrow> VideoGenerationResult \<Rightarrow> BatchJobResult" where
  "completed_result job idx outputPath res =
     \<lparr>index = idx + 1, res_prompt = prompt job, status = completed,
      res_output_path =
        Some (if truthy (vg_output_path res) then the (vg_output_path res) else outputPath),
      res_video_url = (if truthy (url res) then url res else None),
      error = None,
      video_duration = (case vg_duration res of None \<Rightarrow> None
                        | Some d \<Rightarrow> if d = 0 then None else Some d),
      is_edit = Some (isEditJob job),
      is_image_to_video = Some (isImageToVideoJob job),
      request_id = (if truthy (vg_request_id res) then vg_request_id res else None)\<rparr>"

definition failed_result :: "BatchJobConfig \<Rightarrow> nat \<Rightarrow> string \<Rightarrow> BatchJobResult" where
  "failed_result job idx lastError =
     \<lparr>index = idx + 1, res_prompt = prompt job, status = failed,
      res_output_path = None, res_video_url = None, error = Some lastError,
      video_duration = None,
      is_edit = Some (isEditJob job),
      is_image_to_video = Some (isImageToVideoJob job),
      request_id = None\<rparr>"

text \<open>What a run of \<^verbatim>\<open>executeJob\<close> leaves behind: the result it returns, the number of
  executor calls it made, and the delays it slept between attempts.\<close>

record job_run =
  run_result :: BatchJobResult
  run_calls :: nat
  run_delays :: "int list"

text \<open>The loop \<^verbatim>\<open>for (let attempt = 0; attempt <= maxRetries; attempt++)\<close>. In the
  \<^verbatim>\<open>catch\<close> block the value of \<^verbatim>\<open>shouldRetry\<close> decides whether the delay is slept,
  and nothing else: there is no \<^verbatim>\<open>break\<close>, the loop goes on to the next attempt
  either way.\<close>

function attempts ::
  "executor \<Rightarrow> exec_call \<Rightarrow> BatchJobConfig \<Rightarrow> nat \<Rightarrow> string \<Rightarrow> BatchConfig \<Rightarrow>
   nat \<Rightarrow> string \<Rightarrow> int list \<Rightarrow> job_run" where
  "attempts world call job idx outputPath config attempt lastError delays =
     (if int attempt \<le> maxRetries config then
        (case world call attempt of
           Returned res \<Rightarrow>
             \<lparr>run_result = completed_result job idx outputPath res,
              run_calls = attempt + 1, run_delays = delays\<rparr>
         | Threw e \<Rightarrow>
             (let lastError' = error_text e
              in attempts world call job idx outputPath config (attempt + 1) lastError'
                   (if shouldRetry attempt (maxRetries config) (retryPatterns config) lastError'
                    then delays @ [retryDelay config] else delays)))
      else
        \<lparr>run_result = failed_result job idx lastError,
         run_calls = attempt, run_delays = delays\<rparr>)"
  by pat_completeness auto
termination
  by (relation "measure (\<lambda>(world, call, job, idx, outputPath, config, attempt, lastError, delays).
                   nat (maxRetries config + 1 - int attempt))") auto

declare attempts.simps [simp del]

definition executeJob ::
  "string \<Rightarrow> executor \<Rightarrow> BatchJobConfig \<Rightarrow> nat \<Rightarrow> string \<Rightarrow> BatchConfig \<Rightarrow> int \<Rightarrow> int \<Rightarrow> job_run" where
  "executeJob apiKey world job idx outputPath config pollInterval maxPollAttempts =
     attempts world (dispatch apiKey job outputPath config pollInterval maxPollAttempts)
       job idx outputPath config 0 [] []"

subsection \<open>The semaphore (class \<^verbatim>\<open>Semaphore\<close>)\<close>

text \<open>The queue holds the \<^verbatim>\<open>resolve\<close> callbacks of the waiting callers; a callback is
  named by the job whose task waits on it.\<close>

record Semaphore =
  permits :: rat
  queue :: "nat list"

definition new_Semaphore :: "rat \<Rightarrow> Semaphore" where
  "new_Semaphore n = \<lparr>permits = n, queue = []\<rparr>"

text \<open>\<^verbatim>\<open>acquire\<close> says whether the permit was taken at once, \<^verbatim>\<open>release\<close> which waiter
  it woke.\<close>

definition acquire :: "nat \<Rightarrow> Semaphore \<Rightarrow> bool \<times> Semaphore" where
  "acquire task sem =
     (if permits sem > 0 then (True, sem\<lparr>permits := permits sem - 1\<rparr>)
      else (False, sem\<lparr>queue := queue sem @ [task]\<rparr>))"

definition release :: "Semaphore \<Rightarrow> nat option \<times> Semaphore" where
  "release sem =
     (case queue sem of
        [] \<Rightarrow> (None, sem\<lparr>permits := permits sem + 1\<rparr>)
      | next # rest \<Rightarrow> (Some next, sem\<lparr>queue := rest\<rparr>))"

subsection \<open>The scheduler (\<^verbatim>\<open>BatchManager.executeBatch\<close>)\<close>

text \<open>
  The state shared by the job promises: the semaphore, the jobs that hold a permit and
  are between \<^verbatim>\<open>acquire\<close> and the \<^verbatim>\<open>finally\<close> block, the array \<^verbatim>\<open>results\<close>, the flag
  \<^verbatim>\<open>timedOut\<close>, and the first job promise that rejected while the race of line 190 was
  still undecided.
\<close>

record batch_state =
  semaphore :: Semaphore
  executing :: "nat list"
  recorded :: "BatchJobResult list"
  timedOut :: bool
  rejected :: "nat option"

definition init_state :: "rat \<Rightarrow> batch_state" where
  "init_state maxConcurrent =
     \<lparr>semaphore = new_Semaphore maxConcurrent, executing = [], recorded = [],
      timedOut = False, rejected = None\<rparr>"

text \<open>Creating the job promise of job \<open>i\<close> runs it up to its first \<^verbatim>\<open>await\<close>, which is
  the call of \<^verbatim>\<open>acquire\<close>.\<close>

definition launch :: "nat \<Rightarrow> batch_state \<Rightarrow> batch_state" where
  "launch i st =
     (case acquire i (semaphore st) of
        (granted, sem) \<Rightarrow>
          st\<lparr>semaphore := sem,
             executing := (if granted then executing st @ [i] else executing st)\<rparr>)"

text \<open>The loop of lines 170 to 185: the output path of a job is resolved, then its promise
  is created. A path that does not resolve throws out of \<^verbatim>\<open>executeBatch\<close>.\<close>

fun create_jobs ::
  "environment \<Rightarrow> string \<Rightarrow> bool \<Rightarrow> BatchJobConfig list \<Rightarrow> nat \<Rightarrow> batch_state \<times> string list \<Rightarrow>
   js_error + batch_state \<times> string list" where
  "create_jobs env outputDir allowAny [] i acc = Inr acc"
| "create_jobs env outputDir allowAny (job # rest) i (st, paths) =
     (case resolveOutputPath env job i outputDir allowAny of
        Inl e \<Rightarrow> Inl e
      | Inr outputPath \<Rightarrow>
          create_jobs env outputDir allowAny rest (i + 1) (launch i st, paths @ [outputPath]))"

text \<open>
  What happens while \<^verbatim>\<open>executeBatch\<close> waits, one event at a time:
  \<^item> \<open>Finish i\<close>: \<^verbatim>\<open>executeJob\<close> of job \<open>i\<close> returns; its result is pushed and the
    \<^verbatim>\<open>finally\<close> block releases the permit;
  \<^item> \<open>Crash i\<close>: the protected section of job \<open>i\<close> is left by an exception; nothing is
    pushed, the \<^verbatim>\<open>finally\<close> block releases the permit, and the job promise rejects;
  \<^item> \<open>Timeout\<close>: the timer of line 193 fires; the events after it are those of the
    two seconds that \<^verbatim>\<open>executeBatch\<close> then waits before it finalizes.
  An event of a job that holds no permit cannot happen and changes nothing. A job that
  was woken by \<^verbatim>\<open>release\<close> counts as inside the protected section from that moment.
  The rejection of a job promise is remembered only while the race is undecided: before
  the timeout and before another rejection.
\<close>

datatype event = Finish nat | Crash nat | Timeout

definition leave :: "nat \<Rightarrow> batch_state \<Rightarrow> batch_state" where
  "leave i st =
     (case release (semaphore st) of
        (woken, sem) \<Rightarrow>
          st\<lparr>semaphore := sem,
             executing := remove1 i (executing st) @
                          (case woken of None \<Rightarrow> [] | Some j \<Rightarrow> [j])\<rparr>)"

fun step :: "(nat \<Rightarrow> BatchJobResult) \<Rightarrow> batch_state \<Rightarrow> event \<Rightarrow> batch_state" where
  "step result_of st (Finish i) =
     (if i \<in> set (executing st)
      then leave i (st\<lparr>recorded := recorded st @ [result_of i]\<rparr>)
      else st)"
| "step result_of st (Crash i) =
     (if i \<in> set (executing st)
      then leave i (st\<lparr>rejected := (if timedOut st \<or> rejected st \<noteq> None
                                       then rejected st else Some i)\<rparr>)
      else st)"
| "step result_of st Timeout = st\<lparr>timedOut := True\<rparr>"

text \<open>Lines 209 to 246: the jobs without a result are marked, the results are sorted by
  index (the sort of the runtime is stable, as insertion sort is), the totals are counted
  and the cost estimate of the configuration is attached.\<close>

definition cancelled_result :: "BatchConfig \<Rightarrow> nat \<Rightarrow> BatchJobResult" where
  "cancelled_result config i =
     \<lparr>index = i + 1, res_prompt = prompt (jobs config ! i), status = cancelled,
      res_output_path = None, res_video_url = None,
      error = Some ''Job cancelled due to timeout'',
      video_duration = None, is_edit = None, is_image_to_video = None, request_id = None\<rparr>"

definition mark_cancelled :: "BatchConfig \<Rightarrow> BatchJobResult list \<Rightarrow> BatchJobResult list" where
  "mark_cancelled config rs =
     rs @ map (cancelled_result config)
            (filter (\<lambda>i. i + 1 \<notin> set (map index rs)) [0..<length (jobs config)])"

definition finalize :: "BatchConfig \<Rightarrow> BatchJobResult list \<Rightarrow> BatchResult" where
  "finalize config rs =
     (let sorted_results = sort_key index (mark_cancelled config rs);
          estimate = estimateBatchCost config
      in \<lparr>total = length (jobs config),
          succeeded = length (filter (\<lambda>r. status r = completed) sorted_results),
          failed_count = length (filter (\<lambda>r. status r = failed) sorted_results),
          cancelled_count = length (filter (\<lambda>r. status r = cancelled) sorted_results),
          results = sorted_results,
          estimated_cost = Some (estimatedCostMin estimate)\<rparr>)"

definition maxConcurrent :: "BatchConfig \<Rightarrow> rat" where
  "maxConcurrent config = or_num (max_concurrent config) 2"

definition outputDir :: "environment \<Rightarrow> BatchConfig \<Rightarrow> string" where
  "outputDir env config =
     (if truthy (output_dir config) then the (output_dir config)
      else getDefaultOutputDirectory env)"

text \<open>The result of job \<open>i\<close>, as the job promise computes it.\<close>

definition job_result ::
  "string \<Rightarrow> (nat \<Rightarrow> executor) \<Rightarrow> BatchConfig \<Rightarrow> string list \<Rightarrow> nat \<Rightarrow> BatchJobResult" where
  "job_result apiKey world config paths i =
     run_result (executeJob apiKey (world i) (jobs config ! i) i (paths ! i) config
                   (or_int (poll_interval config) DEFAULT_POLL_INTERVAL)
                   (or_int (max_poll_attempts config) DEFAULT_MAX_POLL_ATTEMPTS))"

text \<open>The state of the scheduler after the promises were created and the given events
  happened, or the error of the path that did not resolve.\<close>

definition batch_state_after ::
  "string \<Rightarrow> (nat \<Rightarrow> executor) \<Rightarrow> BatchConfig \<Rightarrow> BatchExecutionOptions \<Rightarrow> environment \<Rightarrow>
   event list \<Rightarrow> js_error + batch_state" where
  "batch_state_after apiKey world config options env events =
     (case create_jobs env (outputDir env config) (nullish (allowAnyPath options) False)
             (jobs config) 0 (init_state (maxConcurrent config), []) of
        Inl e \<Rightarrow> Inl e
      | Inr (st, paths) \<Rightarrow> Inr (foldl (step (job_result apiKey world config paths)) st events))"

text \<open>\<^verbatim>\<open>executeBatch\<close>, for the events that happen before it finalizes: it throws the
  configuration error, or the rejection of a job promise that came before the timeout,
  or returns the report.\<close>

definition executeBatch ::
  "string \<Rightarrow> (nat \<Rightarrow> executor) \<Rightarrow> BatchConfig \<Rightarrow> BatchExecutionOptions \<Rightarrow> environment \<Rightarrow>
   event list \<Rightarrow> js_error + BatchResult" where
  "executeBatch apiKey world config options env events =
     (case batch_state_after apiKey world config options env events of
        Inl e \<Rightarrow> Inl e
      | Inr st \<Rightarrow>
          (case rejected st of
             Some i \<Rightarrow> Inl (InternalFault i)
           | None \<Rightarrow> Inr (finalize config (recorded st))))"

subsection \<open>Invariants of the scheduler\<close>

text \<open>
  Three properties that every state of the scheduler has. The permits stay above \<open>-1\<close>
  (a permit is taken only from a positive count) and, together with the jobs that hold
  one, add up to the number the semaphore was created with. Among the first \<open>n\<close> jobs, no job holds a permit or waits twice, the
  results carry different indices between 1 and \<open>n\<close>, and a job with a result neither
  holds a permit nor waits. Every result is the result of the job its index names.
\<close>

definition permits_inv :: "rat \<Rightarrow> batch_state \<Rightarrow> bool" where
  "permits_inv k st =
     (- 1 < permits (semaphore st) \<and>
      permits (semaphore st) + of_nat (length (executing st)) = k)"

definition tasks_inv :: "nat \<Rightarrow> batch_state \<Rightarrow> bool" where
  "tasks_inv n st =
     (distinct (executing st @ queue (semaphore st)) \<and>
      list_all (\<lambda>i. i < n) (executing st @ queue (semaphore st)) \<and>
      distinct (map index (recorded st)) \<and>
      list_all (\<lambda>r. 1 \<le> index r \<and> index r \<le> n \<and>
                     index r - 1 \<notin> set (executing st @ queue (semaphore st)))
        (recorded st))"

definition results_inv :: "(nat \<Rightarrow> BatchJobResult) \<Rightarrow> batch_state \<Rightarrow> bool" where
  "results_inv result_of st = list_all (\<lambda>r. r = result_of (index r - 1)) (recorded st)"

text \<open>The part of a state that the results of the jobs cannot influence: everything but
  the results themselves, of which only the indices are kept.\<close>

definition control :: "batch_state \<Rightarrow> Semaphore \<times> nat list \<times> bool \<times> nat option \<times> nat list" where
  "control st = (semaphore st, executing st, timedOut st, rejected st, map index (recorded st))"

subsection \<open>The kind of a job as each component sees it\<close>

text \<open>\<^verbatim>\<open>estimateBatchCost\<close> names the kind (\<open>estimate_type\<close> above). \<^verbatim>\<open>executeJob\<close>
  shows it twice: in the executor it calls (\<^verbatim>\<open>generateVideo\<close> switches to its
  image-to-video mode when it is given an image URL or an image path), and in the two
  flags of the result it returns, read in the order of \<^verbatim>\<open>formatResultText\<close>.\<close>

definition call_kind :: "exec_call \<Rightarrow> job_type" where
  "call_kind call =
     (case call of
        EditVideo _ _ _ _ \<Rightarrow> edit
      | GenerateVideo _ params _ _ \<Rightarrow>
          if truthy (gv_image_url params) \<or> truthy (gv_image_path params)
          then image_to_video else generation)"

definition result_kind :: "BatchJobResult \<Rightarrow> job_type" where
  "result_kind r =
     (if is_edit r = Some True then edit
      else if is_image_to_video r = Some True then image_to_video
      else generation)"

subsection \<open>Example inputs\<close>

text \<open>The job \<^verbatim>\<open>{ "prompt": "a cat" }\<close>, the configuration with no field set, and a
  working directory; the examples below fill in the fields they need.\<close>

definition example_job :: BatchJobConfig where
  "example_job =
     \<lparr>prompt = ''a cat'', output_path = None, model = None, duration = None,
      aspect_ratio = None, resolution = None, image_url = None, image_path = None,
      video_url = None\<rparr>"

definition example_config :: BatchConfig where
  "example_config =
     \<lparr>jobs = [], output_dir = None, max_concurrent = None, timeout = None,
      poll_interval = None, max_poll_attempts = None, retry_policy = None,
      default_model = None, default_resolution = None, default_aspect_ratio = None,
      default_duration = None\<rparr>"

definition example_env :: environment where
  "example_env = \<lparr>OUTPUT_DIR = None, cwd = ''/home/u''\<rparr>"

definition example_options :: BatchExecutionOptions where
  "example_options = \<lparr>allowAnyPath = None\<rparr>"

definition example_video :: VideoGenerationResult where
  "example_video =
     \<lparr>success = True, url = Some ''https://example.com/v.mp4'', vg_output_path = None,
      vg_duration = Some 5, vg_error = None, vg_request_id = Some ''req-1''\<rparr>"

text \<open>Executors: one that always succeeds, one that always fails on the prompt, one that
  is always rate limited, and one that is rate limited a given number of times.\<close>

definition always_ok :: executor where
  "always_ok = (\<lambda>call n. Returned example_video)"

definition always_invalid :: executor where
  "always_invalid =
     (\<lambda>call n. Threw \<lparr>message = ''Invalid prompt'', to_string = ''Error: Invalid prompt''\<rparr>)"



definition edit_with_image_job :: BatchJobConfig where
  "edit_with_image_job =
     example_job\<lparr>video_url := Some ''https://example.com/v.mp4'',
                 image_path := Some ''./cat.png''\<rparr>"

definition sibling_path_job :: BatchJobConfig where
  "sibling_path_job = example_job\<lparr>output_path := Some ''/out-private/x.mp4''\<rparr>"

text \<open>Configurations for the cost estimate: one generation job of duration \<open>-1\<close>; one
  generation job of duration 5 and one edit job.\<close>

definition negative_duration_config :: BatchConfig where
  "negative_duration_config = example_config\<lparr>jobs := [example_job\<lparr>duration := Some (- 1)\<rparr>]\<rparr>"

definition edit_job :: BatchJobConfig where
  "edit_job = example_job\<lparr>prompt := ''make it night'', video_url := Some ''https://example.com/v.mp4''\<rparr>"

definition two_kind_config :: BatchConfig where
  "two_kind_config = example_config\<lparr>jobs := [example_job\<lparr>duration := Some 5\<rparr>, edit_job]\<rparr>"



definition three_jobs_config :: BatchConfig where
  "three_jobs_config = example_config\<lparr>jobs := [example_job, example_job, example_job], max_concurrent := Some 1\<rparr>"

definition all_ok :: "nat \<Rightarrow> executor" where
  "all_ok = (\<lambda>i. always_ok)"

definition second_invalid :: "nat \<Rightarrow> executor" where
  "second_invalid = (\<lambda>i. if i = 1 then always_invalid else always_ok)"

text \<open>A run of the three jobs that times out: the first job completes, the second
  fails, then the timer fires while the third job is still inside; and the state the
  scheduler is in at that moment.\<close>

definition first_completed :: BatchJobResult where
  "first_completed = completed_result example_job 0 ''/home/u/generated_1.mp4'' example_video"

definition second_failed :: BatchJobResult where
  "second_failed = failed_result example_job 1 ''Invalid prompt''"

definition timed_out_state :: batch_state where
  "timed_out_state =
     \<lparr>semaphore = \<lparr>permits = 0, queue = []\<rparr>, executing = [2],
      recorded = [first_completed, second_failed], timedOut = True, rejected = None\<rparr>"

definition timed_out_events :: "event list" where
  "timed_out_events = [Finish 0, Finish 1, Timeout]"


text \<open>No duration of the configuration is negative: neither the default nor that of a job.\<close>

definition durations_nonnegative :: "BatchConfig \<Rightarrow> bool" where
  "durations_nonnegative config =
     ((case default_duration config of None \<Rightarrow> True | Some d \<Rightarrow> 0 \<le> d) \<and>
      list_all (\<lambda>job. case duration job of None \<Rightarrow> True | Some d \<Rightarrow> 0 \<le> d) (jobs config))"

section \<open>Properties\<close>

subsection \<open>Job classification\<close>

lemma attempts_result_fields:
  "index (run_result (attempts world call job idx outputPath config attempt lastError delays)) = idx + 1 \<and>
   res_prompt (run_result (attempts world call job idx outputPath config attempt lastError delays)) = prompt job \<and>
   is_edit (run_result (attempts world call job idx outputPath config attempt lastError delays)) = Some (isEditJob job) \<and>
   is_image_to_video (run_result (attempts world call job idx outputPath config attempt lastError delays)) =
     Some (isImageToVideoJob job)"
proof (induction world call job idx outputPath config attempt lastError delays rule: attempts.induct)
  case (1 world call job idx outputPath config attempt lastError delays)
  show ?case
  proof (cases "int attempt \<le> maxRetries config")
    case False
    then show ?thesis
      by (subst (1 2 3 4) attempts.simps) (simp add: failed_result_def)
  next
    case True
    show ?thesis
    proof (cases "world call attempt")
      case (Returned res)
      with True show ?thesis
        by (subst (1 2 3 4) attempts.simps) (simp add: completed_result_def)
    next
      case (Threw e)
      with True "1.IH" [OF True Threw refl] show ?thesis
        by (subst (1 2 3 4) attempts.simps) (simp add: Let_def)
    qed
  qed
qed

lemma executeJob_index:
  "index (run_result (executeJob apiKey world job idx outputPath config pollInterval maxPollAttempts)) = idx + 1"
  by (simp add: executeJob_def attempts_result_fields)

text \<open>
  Claim C8. The kind of a job is decided in the order: a source video makes it an edit,
  otherwise an image URL or an image path makes it image-to-video, otherwise it is a
  generation. The kind that \<^verbatim>\<open>estimateBatchCost\<close> counts the job under is the kind of
  the executor call that \<^verbatim>\<open>executeJob\<close> dispatches, and the kind that the flags of the
  result of \<^verbatim>\<open>executeJob\<close> show, for every job, whatever the executor does.
\<close>

theorem job_kind_agrees:
  "estimate_type job =
     (if truthy (video_url job) then edit
      else if truthy (image_url job) \<or> truthy (image_path job) then image_to_video
      else generation) \<and>
   call_kind (dispatch apiKey job outputPath config pollInterval maxPollAttempts) = estimate_type job \<and>
   result_kind (run_result (executeJob apiKey world job idx outputPath config pollInterval maxPollAttempts)) =
     estimate_type job"
proof -
  have kind: "estimate_type job =
     (if truthy (video_url job) then edit
      else if truthy (image_url job) \<or> truthy (image_path job) then image_to_video
      else generation)"
    by (simp add: estimate_type_def estimate_isEdit_def estimate_isImageToVideo_def)
  have call: "call_kind (dispatch apiKey job outputPath config pollInterval maxPollAttempts) = estimate_type job"
    by (simp add: kind call_kind_def dispatch_def isEditJob_def)
  have flags: "result_kind (run_result (executeJob apiKey world job idx outputPath config pollInterval maxPollAttempts)) =
      estimate_type job"
    by (simp add: kind result_kind_def executeJob_def attempts_result_fields isEditJob_def
        isImageToVideoJob_def)
  from kind call flags show ?thesis by blast
qed

subsection \<open>Retries\<close>

text \<open>
  Claim C1, at the input where the program departs from it: the default retry policy
  (two retries; patterns \<^verbatim>\<open>rate_limit\<close>, \<^verbatim>\<open>timeout\<close>, \<^verbatim>\<open>429\<close>, \<^verbatim>\<open>503\<close>) and an
  executor that always throws \<^verbatim>\<open>Invalid prompt\<close>. The message matches no pattern, no
  delay is slept, and the executor is still called three times before the job fails.
\<close>

theorem executeJob_repeats_non_retryable:
  "\<not> matches_pattern (retryPatterns example_config) ''Invalid prompt'' \<and>
   maxRetries example_config = 2 \<and>
   executeJob ''key'' always_invalid example_job 0 ''/out/generated_1.mp4'' example_config 5000 120 =
     \<lparr>run_result = failed_result example_job 0 ''Invalid prompt'', run_calls = 3, run_delays = []\<rparr>"
proof -
  have "\<not> matches_pattern (retryPatterns example_config) ''Invalid prompt''"
    by (simp add: matches_pattern_def retryPatterns_def retryPolicy_def nullish_def
        example_config_def toLowerCase_def lower_char_def)
  moreover have "maxRetries example_config = 2"
    by (simp add: maxRetries_def retryPolicy_def nullish_def example_config_def)
  moreover have "executeJob ''key'' always_invalid example_job 0 ''/out/generated_1.mp4'' example_config 5000 120 =
     \<lparr>run_result = failed_result example_job 0 ''Invalid prompt'', run_calls = 3, run_delays = []\<rparr>"
    by code_simp
  ultimately show ?thesis by blast
qed





subsection \<open>Validation\<close>

text \<open>A source video together with an image URL is always rejected.\<close>

lemma validateJobConfig_rejects_video_with_image_url:
  assumes "truthy (video_url job)" and "truthy (image_url job)"
  shows "\<exists>msg. validateJobConfig job idx = Inl (BatchConfigError msg)"
  using assms by (simp add: validateJobConfig_def Let_def)

text \<open>
  Claim C2, at the input where the program departs from it: a batch of one job that has
  both \<^verbatim>\<open>video_url\<close> and \<^verbatim>\<open>image_path\<close>. \<^verbatim>\<open>validateJobConfig\<close> tests
  \<^verbatim>\<open>image_url\<close> only, so the batch is accepted; the job is then dispatched to
  \<^verbatim>\<open>editVideo\<close> and its result carries both flags.
\<close>

theorem validation_accepts_video_with_image_path:
  "truthy (video_url edit_with_image_job) \<and> truthy (image_path edit_with_image_job) \<and>
   validateBatchConfig (example_config\<lparr>jobs := [edit_with_image_job]\<rparr>) = Inr () \<and>
   call_kind (dispatch ''key'' edit_with_image_job ''/out/edited_1.mp4''
                (example_config\<lparr>jobs := [edit_with_image_job]\<rparr>) 5000 120) = edit \<and>
   isImageToVideoJob edit_with_image_job"
  by (simp add: validateBatchConfig_def validateJobConfig_def example_config_def example_job_def
      edit_with_image_job_def truthy_def trim_def is_space_def call_kind_def dispatch_def
      isEditJob_def isImageToVideoJob_def)

subsection \<open>Output paths\<close>

text \<open>A relative output path is joined under the output directory and never fails; with
  the override no path fails.\<close>

lemma resolveOutputPath_relative:
  assumes "truthy (output_path job)" and "\<not> isAbsolute (the (output_path job))"
  shows "resolveOutputPath env job idx dir allowAny = Inr (path_join dir (the (output_path job)))"
  using assms by (simp add: resolveOutputPath_def Let_def)

lemma resolveOutputPath_override:
  "\<exists>p. resolveOutputPath env job idx dir True = Inr p"
  by (simp add: resolveOutputPath_def Let_def)

text \<open>
  Claim C3, at the input where the program departs from it: output directory
  \<^verbatim>\<open>/out\<close>, a job with the absolute output path \<^verbatim>\<open>/out-private/x.mp4\<close>, no
  override. The path is outside the directory, but its text starts with the text of the
  directory, which is what \<^verbatim>\<open>resolveOutputPath\<close> tests, so the path is returned.
\<close>

theorem resolveOutputPath_accepts_sibling_directory:
  "isAbsolute (the (output_path sibling_path_job)) \<and>
   \<not> inside_directory (cwd example_env) (the (output_path sibling_path_job)) ''/out'' \<and>
   resolveOutputPath example_env sibling_path_job 0 ''/out'' False = Inr ''/out-private/x.mp4''"
  by (simp add: resolveOutputPath_def sibling_path_job_def example_job_def example_env_def
      truthy_def isAbsolute_def path_resolve_def resolve_segments_def inside_directory_def)

subsection \<open>Cost estimation\<close>

lemma add_buckets_margin:
  "estimatedCostMax acc = estimatedCostMin acc * (12 / 10) \<Longrightarrow>
   estimatedCostMax (add_buckets tc ts acc) = estimatedCostMin (add_buckets tc ts acc) * (12 / 10)"
  by (induction ts arbitrary: acc) (simp_all add: Let_def algebra_simps)

lemma estimateBatchCost_margin:
  "estimatedCostMax (estimateBatchCost config) = estimatedCostMin (estimateBatchCost config) * (12 / 10)"
  unfolding estimateBatchCost_def by (rule add_buckets_margin) simp

lemma type_cost_nonneg: "0 \<le> totalDuration d \<Longrightarrow> 0 \<le> type_cost t d"
  by (cases t) (simp_all add: type_cost_def perSecond_def imageBonus_def)

lemma add_buckets_min_nonneg:
  "0 \<le> estimatedCostMin acc \<Longrightarrow> (\<And>t. 0 \<le> totalDuration (tc t)) \<Longrightarrow>
   0 \<le> estimatedCostMin (add_buckets tc ts acc)"
  by (induction ts arbitrary: acc) (simp_all add: Let_def type_cost_nonneg)

lemma estimate_duration_nonneg:
  "0 \<le> dd \<Longrightarrow> (case duration job of None \<Rightarrow> True | Some d \<Rightarrow> 0 \<le> d) \<Longrightarrow>
   0 \<le> estimate_duration dd job"
  by (simp add: estimate_duration_def nullish_def split: option.splits)

lemma foldl_count_job_nonneg:
  "0 \<le> dd \<Longrightarrow> list_all (\<lambda>job. case duration job of None \<Rightarrow> True | Some d \<Rightarrow> 0 \<le> d) js \<Longrightarrow>
   (\<And>t. 0 \<le> totalDuration (tc t)) \<Longrightarrow>
   0 \<le> totalDuration (foldl (count_job dd) tc js t)"
proof (induction js arbitrary: tc)
  case Nil
  then show ?case by simp
next
  case (Cons job js)
  have "\<And>t. 0 \<le> totalDuration (count_job dd tc job t)"
    using Cons.prems estimate_duration_nonneg [of dd job]
    by (simp add: count_job_def Let_def)
  with Cons show ?case by simp
qed

lemma count_jobs_nonneg:
  assumes "durations_nonnegative config"
  shows "0 \<le> totalDuration (count_jobs config t)"
proof -
  from assms have "0 \<le> nullish (default_duration config) DEFAULT_DURATION"
    by (simp add: durations_nonnegative_def nullish_def DEFAULT_DURATION_def split: option.splits)
  moreover from assms have
    "list_all (\<lambda>job. case duration job of None \<Rightarrow> True | Some d \<Rightarrow> 0 \<le> d) (jobs config)"
    by (simp add: durations_nonnegative_def)
  ultimately show ?thesis
    unfolding count_jobs_def
    by (rule foldl_count_job_nonneg) (simp add: typeCounts_init_def)
qed

lemma estimateBatchCost_min_nonneg:
  "durations_nonnegative config \<Longrightarrow> 0 \<le> estimatedCostMin (estimateBatchCost config)"
  unfolding estimateBatchCost_def
  by (rule add_buckets_min_nonneg) (simp_all add: count_jobs_nonneg)

lemma count_job_edit:
  "totalDuration (count_job dd tc job edit) =
     totalDuration (tc edit) + (if estimate_type job = edit then 5 else 0) \<and>
   count (count_job dd tc job edit) =
     count (tc edit) + (if estimate_type job = edit then 1 else 0)"
proof -
  have d: "estimate_type job = edit \<Longrightarrow> estimate_duration dd job = 5"
    by (simp add: estimate_type_def estimate_duration_def split: if_splits)
  with d show ?thesis
    by (simp add: count_job_def Let_def)
qed

lemma foldl_count_job_edit:
  "totalDuration (foldl (count_job dd) tc js edit) =
     totalDuration (tc edit) + 5 * of_nat (length (filter (\<lambda>j. estimate_type j = edit) js)) \<and>
   count (foldl (count_job dd) tc js edit) =
     count (tc edit) + length (filter (\<lambda>j. estimate_type j = edit) js)"
proof (induction js arbitrary: tc)
  case Nil
  then show ?case by simp
next
  case (Cons job js)
  show ?case
    by (simp add: Cons.IH [of "count_job dd tc job"] count_job_edit algebra_simps)
qed

lemma count_jobs_edit:
  "totalDuration (count_jobs config edit) = 5 * of_nat (count (count_jobs config edit)) \<and>
   count (count_jobs config edit) = length (filter (\<lambda>j. estimate_type j = edit) (jobs config))"
  by (simp add: count_jobs_def foldl_count_job_edit typeCounts_init_def)

lemma add_buckets_breakdown:
  "b \<in> set (breakdown (add_buckets tc ts acc)) \<Longrightarrow>
   b \<in> set (breakdown acc) \<or>
   (item_count b = count (tc (item_type b)) \<and> item_totalDuration b = totalDuration (tc (item_type b)))"
proof (induction ts arbitrary: acc)
  case Nil
  then show ?case by simp
next
  case (Cons t ts)
  show ?case
  proof (cases "count (tc t) = 0")
    case True
    with Cons.prems have "b \<in> set (breakdown (add_buckets tc ts acc))" by simp
    then show ?thesis by (rule Cons.IH)
  next
    case False
    define item where "item = \<lparr>item_type = t, item_count = count (tc t),
        item_totalDuration = totalDuration (tc t),
        costMin = type_cost t (tc t), costMax = type_cost t (tc t) * (12 / 10)\<rparr>"
    define acc' where "acc' = acc\<lparr>breakdown := breakdown acc @ [item],
        estimatedCostMin := estimatedCostMin acc + type_cost t (tc t),
        estimatedCostMax := estimatedCostMax acc + type_cost t (tc t) * (12 / 10),
        totalVideoDuration := totalVideoDuration acc + totalDuration (tc t)\<rparr>"
    from False Cons.prems have "b \<in> set (breakdown (add_buckets tc ts acc'))"
      by (simp add: Let_def acc'_def item_def)
    then have "b \<in> set (breakdown acc') \<or>
      (item_count b = count (tc (item_type b)) \<and> item_totalDuration b = totalDuration (tc (item_type b)))"
      by (rule Cons.IH)
    moreover have "set (breakdown acc') = set (breakdown acc) \<union> {item}"
      by (simp add: acc'_def)
    moreover have "item_count item = count (tc (item_type item)) \<and>
      item_totalDuration item = totalDuration (tc (item_type item))"
      by (simp add: item_def)
    ultimately show ?thesis by auto
  qed
qed

lemma estimateBatchCost_breakdown:
  "b \<in> set (breakdown (estimateBatchCost config)) \<Longrightarrow>
   item_count b = count (count_jobs config (item_type b)) \<and>
   item_totalDuration b = totalDuration (count_jobs config (item_type b))"
  unfolding estimateBatchCost_def by (drule add_buckets_breakdown) simp

lemma two_kinds_breakdown:
  assumes "jobs config = [g, e] \<or> jobs config = [e, g]"
    and "estimate_type g = generation" and "duration g = Some 5" and "estimate_type e = edit"
  shows "map item_type (breakdown (estimateBatchCost config)) = [generation, edit]"
proof -
  from assms have g: "\<not> estimate_isEdit g" "\<not> estimate_isImageToVideo g"
    and e: "estimate_isEdit e"
    by (auto simp: estimate_type_def split: if_splits)
  from assms(1) show ?thesis
  proof
    assume "jobs config = [g, e]"
    then show ?thesis using assms(2-4) g e
      by (simp add: estimateBatchCost_def count_jobs_def count_job_def Let_def typeCounts_init_def
          estimate_duration_def nullish_def)
  next
    assume "jobs config = [e, g]"
    then show ?thesis using assms(2-4) g e
      by (simp add: estimateBatchCost_def count_jobs_def count_job_def Let_def typeCounts_init_def
          estimate_duration_def nullish_def)
  qed
qed

text \<open>
  Claim C7 says that the lower bound never exceeds the upper bound, for every
  configuration. \<^verbatim>\<open>estimateBatchCost\<close> does not validate what it is given: for one
  generation job of duration \<open>-1\<close> the bounds are \<open>-0.05\<close> and \<open>-0.06\<close>.
\<close>

theorem estimateBatchCost_negative_duration:
  "\<not> estimatedCostMin (estimateBatchCost negative_duration_config) \<le>
      estimatedCostMax (estimateBatchCost negative_duration_config)"
  by (simp add: negative_duration_config_def example_config_def example_job_def
      estimateBatchCost_def count_jobs_def count_job_def Let_def typeCounts_init_def
      estimate_duration_def estimate_type_def estimate_isEdit_def estimate_isImageToVideo_def
      truthy_def nullish_def type_cost_def perSecond_def)

text \<open>
  Claim C7, amended. \<^verbatim>\<open>estimateBatchCost\<close> is a function of the configuration alone:
  equal configurations give equal estimates. When no duration of the configuration is
  negative, which holds for every configuration that \<^verbatim>\<open>validateBatchConfig\<close> accepts
  (\<open>validated_durations_nonnegative\<close> below), the lower bound of the cost is at most the
  upper bound. An edit bucket counts the edit jobs and holds five seconds for each of
  them, whatever durations are configured. A configuration of one generation job of
  duration 5 and one edit job, in either order, has exactly the two buckets generation
  and edit.
\<close>

theorem estimateBatchCost_properties:
  "(config' = config \<longrightarrow> estimateBatchCost config' = estimateBatchCost config) \<and>
   (durations_nonnegative config \<longrightarrow>
      estimatedCostMin (estimateBatchCost config) \<le> estimatedCostMax (estimateBatchCost config)) \<and>
   (\<forall>b \<in> set (breakdown (estimateBatchCost config)).
      item_type b = edit \<longrightarrow>
        item_count b = length (filter (\<lambda>j. estimate_type j = edit) (jobs config)) \<and>
        item_totalDuration b = 5 * of_nat (item_count b)) \<and>
   ((jobs config = [g, e] \<or> jobs config = [e, g]) \<and> estimate_type g = generation \<and>
    duration g = Some 5 \<and> estimate_type e = edit \<longrightarrow>
      map item_type (breakdown (estimateBatchCost config)) = [generation, edit])"
proof (intro conjI impI ballI)
  assume "config' = config"
  then show "estimateBatchCost config' = estimateBatchCost config" by simp
next
  assume "durations_nonnegative config"
  then have "0 \<le> estimatedCostMin (estimateBatchCost config)"
    by (rule estimateBatchCost_min_nonneg)
  then show "estimatedCostMin (estimateBatchCost config) \<le> estimatedCostMax (estimateBatchCost config)"
    by (simp add: estimateBatchCost_margin)
next
  fix b assume b: "b \<in> set (breakdown (estimateBatchCost config))" and t: "item_type b = edit"
  from estimateBatchCost_breakdown [OF b] t count_jobs_edit [of config]
  show "item_count b = length (filter (\<lambda>j. estimate_type j = edit) (jobs config))"
    and "item_totalDuration b = 5 * of_nat (item_count b)"
    by simp_all
next
  assume "(jobs config = [g, e] \<or> jobs config = [e, g]) \<and> estimate_type g = generation \<and>
    duration g = Some 5 \<and> estimate_type e = edit"
  then show "map item_type (breakdown (estimateBatchCost config)) = [generation, edit]"
    by (blast intro: two_kinds_breakdown)
qed

theorem estimateBatchCost_properties_witness:
  "durations_nonnegative two_kind_config \<and>
   estimatedCostMin (estimateBatchCost two_kind_config) \<le>
     estimatedCostMax (estimateBatchCost two_kind_config) \<and>
   map item_type (breakdown (estimateBatchCost two_kind_config)) = [generation, edit] \<and>
   item_count (last (breakdown (estimateBatchCost two_kind_config))) = 1 \<and>
   item_totalDuration (last (breakdown (estimateBatchCost two_kind_config))) = 5"
proof -
  let ?g = "example_job\<lparr>duration := Some 5\<rparr>"
  have nn: "durations_nonnegative two_kind_config"
    by (simp add: durations_nonnegative_def two_kind_config_def example_config_def
        example_job_def edit_job_def)
  have js: "jobs two_kind_config = [?g, edit_job]"
    by (simp add: two_kind_config_def example_config_def)
  have g: "estimate_type ?g = generation" "duration ?g = Some 5"
    by (simp_all add: estimate_type_def estimate_isEdit_def estimate_isImageToVideo_def
        truthy_def example_job_def)
  have e: "estimate_type edit_job = edit"
    by (simp add: estimate_type_def estimate_isEdit_def truthy_def edit_job_def example_job_def)
  note inst = estimateBatchCost_properties [of two_kind_config two_kind_config ?g edit_job]
  from inst nn have le: "estimatedCostMin (estimateBatchCost two_kind_config) \<le>
     estimatedCostMax (estimateBatchCost two_kind_config)" by blast
  from inst js g e have kinds:
    "map item_type (breakdown (estimateBatchCost two_kind_config)) = [generation, edit]" by blast
  then have "last (breakdown (estimateBatchCost two_kind_config)) \<in>
      set (breakdown (estimateBatchCost two_kind_config))"
    and "item_type (last (breakdown (estimateBatchCost two_kind_config))) = edit"
    by (auto simp: map_eq_Cons_conv)
  with inst js g e have
    "item_count (last (breakdown (estimateBatchCost two_kind_config))) = 1 \<and>
     item_totalDuration (last (breakdown (estimateBatchCost two_kind_config))) = 5"
    by simp
  with nn le kinds show ?thesis by blast
qed

lemma validateJobConfig_duration:
  "validateJobConfig job idx = Inr () \<Longrightarrow>
   (case duration job of None \<Rightarrow> True | Some d \<Rightarrow> 0 \<le> d)"
  by (cases "duration job")
    (auto simp: validateJobConfig_def Let_def MIN_DURATION_def split: if_splits)

lemma validateJobs_duration:
  "validateJobs js idx = Inr () \<Longrightarrow>
   list_all (\<lambda>job. case duration job of None \<Rightarrow> True | Some d \<Rightarrow> 0 \<le> d) js"
proof (induction js arbitrary: idx)
  case Nil
  then show ?case by simp
next
  case (Cons job js)
  from Cons.prems have "validateJobConfig job idx = Inr ()" and "validateJobs js (idx + 1) = Inr ()"
    by (auto split: sum.splits)
  with Cons.IH validateJobConfig_duration show ?case by auto
qed

lemma validated_durations_nonnegative:
  assumes "validateBatchConfig config = Inr ()"
  shows "durations_nonnegative config"
proof -
  from assms have js: "validateJobs (jobs config) 0 = Inr ()"
    by (auto simp: validateBatchConfig_def split: if_splits sum.splits)
  from assms have "case default_duration config of None \<Rightarrow> True | Some d \<Rightarrow> 0 \<le> d"
    by (cases "default_duration config")
      (auto simp: validateBatchConfig_def MIN_DURATION_def split: if_splits sum.splits)
  with validateJobs_duration [OF js] show ?thesis
    by (simp add: durations_nonnegative_def)
qed

subsection \<open>The scheduler keeps its invariants\<close>

lemma leave_fields:
  "recorded (leave i st) = recorded st \<and> timedOut (leave i st) = timedOut st \<and>
   rejected (leave i st) = rejected st"
  by (simp add: leave_def release_def split: list.splits)

lemma leave_tasks:
  assumes "distinct (executing st @ queue (semaphore st))" and "i \<in> set (executing st)"
  shows "distinct (executing (leave i st) @ queue (semaphore (leave i st))) \<and>
         set (executing (leave i st) @ queue (semaphore (leave i st))) =
           set (executing st @ queue (semaphore st)) - {i}"
proof -
  from assms have ex: "distinct (remove1 i (executing st))"
    "set (remove1 i (executing st)) = set (executing st) - {i}"
    by simp_all
  from assms have notq: "i \<notin> set (queue (semaphore st))" by auto
  show ?thesis
  proof (cases "queue (semaphore st)")
    case Nil
    with assms ex show ?thesis
      by (simp add: leave_def release_def)
  next
    case (Cons j rest)
    with assms ex notq show ?thesis
      by (auto simp: leave_def release_def)
  qed
qed

lemma leave_permits:
  assumes "permits_inv k st" and "i \<in> set (executing st)"
  shows "permits_inv k (leave i st)"
proof -
  from assms(2) obtain m where "length (executing st) = Suc m"
    by (cases "executing st") auto
  with assms(2) have len:
    "(of_nat (length (remove1 i (executing st))) :: rat) = of_nat (length (executing st)) - 1"
    by (simp add: length_remove1)
  with assms show ?thesis
    by (cases "queue (semaphore st)")
      (simp_all add: permits_inv_def leave_def release_def)
qed

lemma launch_permits: "permits_inv k st \<Longrightarrow> permits_inv k (launch i st)"
  by (auto simp: permits_inv_def launch_def acquire_def)

lemma launch_tasks:
  assumes "tasks_inv i st"
  shows "tasks_inv (i + 1) (launch i st)"
proof -
  from assms have fresh: "i \<notin> set (executing st @ queue (semaphore st))"
    by (auto simp: tasks_inv_def list_all_iff)
  from assms have rec: "\<forall>r \<in> set (recorded st). index r - 1 \<noteq> i \<and> 1 \<le> index r \<and> index r \<le> i"
    by (auto simp: tasks_inv_def list_all_iff)
  have sets: "set (executing (launch i st) @ queue (semaphore (launch i st))) =
      insert i (set (executing st @ queue (semaphore st)))"
    by (auto simp: launch_def acquire_def)
  have dist: "distinct (executing (launch i st) @ queue (semaphore (launch i st)))"
    using assms fresh by (auto simp: launch_def acquire_def tasks_inv_def)
  have recd: "recorded (launch i st) = recorded st"
    by (simp add: launch_def acquire_def)
  show ?thesis
    unfolding tasks_inv_def list_all_iff
    using assms dist rec fresh
    by (auto simp: sets recd tasks_inv_def list_all_iff simp del: set_append)
qed

lemma launch_results: "results_inv result_of st \<Longrightarrow> results_inv result_of (launch i st)"
  by (simp add: results_inv_def launch_def acquire_def split: prod.splits if_splits)

lemma step_permits: "permits_inv k st \<Longrightarrow> permits_inv k (step result_of st ev)"
proof (cases ev)
  case (Finish i)
  assume inv: "permits_inv k st"
  then have "permits_inv k (st\<lparr>recorded := recorded st @ [result_of i]\<rparr>)"
    by (simp add: permits_inv_def)
  with inv Finish show ?thesis by (auto intro: leave_permits)
next
  case (Crash i)
  assume inv: "permits_inv k st"
  then have "permits_inv k (st\<lparr>rejected := (if timedOut st \<or> rejected st \<noteq> None
                                       then rejected st else Some i)\<rparr>)"
    by (simp add: permits_inv_def)
  with inv Crash show ?thesis by (auto intro: leave_permits simp del: not_None_eq)
next
  case Timeout
  assume "permits_inv k st"
  with Timeout show ?thesis by (simp add: permits_inv_def)
qed

lemma step_tasks:
  assumes "tasks_inv n st" and idx: "\<And>i. index (result_of i) = i + 1"
  shows "tasks_inv n (step result_of st ev)"
proof (cases ev)
  case Timeout
  with assms show ?thesis by (simp add: tasks_inv_def)
next
  case (Crash i)
  show ?thesis
  proof (cases "i \<in> set (executing st)")
    case False
    with Crash assms show ?thesis by simp
  next
    case True
    let ?st1 = "st\<lparr>rejected := (if timedOut st \<or> rejected st \<noteq> None then rejected st else Some i)\<rparr>"
    have d: "distinct (executing ?st1 @ queue (semaphore ?st1))" and m: "i \<in> set (executing ?st1)"
      using assms True by (simp_all add: tasks_inv_def)
    from leave_tasks [OF d m] leave_fields [of i ?st1] assms(1)
    have "tasks_inv n (leave i ?st1)"
      unfolding tasks_inv_def list_all_iff by (auto simp del: set_append)
    with Crash True show ?thesis by simp
  qed
next
  case (Finish i)
  show ?thesis
  proof (cases "i \<in> set (executing st)")
    case False
    with Finish assms show ?thesis by simp
  next
    case True
    let ?st1 = "st\<lparr>recorded := recorded st @ [result_of i]\<rparr>"
    have d: "distinct (executing ?st1 @ queue (semaphore ?st1))" and m: "i \<in> set (executing ?st1)"
      using assms True by (simp_all add: tasks_inv_def)
    from assms(1) True have lt: "i < n" by (auto simp: tasks_inv_def list_all_iff)
    have new: "i + 1 \<notin> set (map index (recorded st))"
    proof
      assume "i + 1 \<in> set (map index (recorded st))"
      then obtain r where r: "r \<in> set (recorded st)" "index r = i + 1" by auto
      from assms(1) have "\<forall>r \<in> set (recorded st).
          index r - 1 \<notin> set (executing st @ queue (semaphore st))"
        by (simp add: tasks_inv_def list_all_iff)
      with r True show False by auto
    qed
    define st2 where "st2 = leave i ?st1"
    define T where "T = set (executing st @ queue (semaphore st))"
    define T2 where "T2 = set (executing st2 @ queue (semaphore st2))"
    from leave_tasks [OF d m] have d2: "distinct (executing st2 @ queue (semaphore st2))"
      and T2: "T2 = T - {i}"
      by (simp_all add: st2_def T_def T2_def del: set_append)
    from leave_fields [of i ?st1] have r2: "recorded st2 = recorded st @ [result_of i]"
      by (simp add: st2_def)
    from assms(1) have old: "\<forall>j \<in> T. j < n" "distinct (map index (recorded st))"
      "\<forall>r \<in> set (recorded st). 1 \<le> index r \<and> index r \<le> n \<and> index r - 1 \<notin> T"
      by (simp_all add: tasks_inv_def list_all_iff T_def del: set_append)
    have b2: "\<forall>j \<in> T2. j < n" using old(1) T2 by blast
    have di2: "distinct (map index (recorded st2))"
      using old(2) new by (simp add: r2 idx)
    have rec2: "\<forall>r \<in> set (recorded st2). 1 \<le> index r \<and> index r \<le> n \<and> index r - 1 \<notin> T2"
    proof
      fix r assume "r \<in> set (recorded st2)"
      then have "r \<in> set (recorded st) \<or> r = result_of i" by (auto simp: r2)
      then show "1 \<le> index r \<and> index r \<le> n \<and> index r - 1 \<notin> T2"
      proof
        assume "r \<in> set (recorded st)"
        with old(3) T2 show ?thesis by blast
      next
        assume "r = result_of i"
        with lt T2 show ?thesis by (simp add: idx)
      qed
    qed
    from d2 b2 di2 rec2 have "tasks_inv n st2"
      by (simp add: tasks_inv_def list_all_iff T2_def del: set_append)
    then have "tasks_inv n (leave i ?st1)" by (simp add: st2_def)
    with Finish True show ?thesis by simp
  qed
qed

lemma step_results:
  assumes "results_inv result_of st" and idx: "\<And>i. index (result_of i) = i + 1"
  shows "results_inv result_of (step result_of st ev)"
  using assms(1)
  by (cases ev) (auto simp: results_inv_def leave_fields idx)

lemma events_inv:
  assumes idx: "\<And>i. index (result_of i) = i + 1"
  shows "(permits_inv k st \<longrightarrow> permits_inv k (foldl (step result_of) st evs)) \<and>
         (tasks_inv n st \<longrightarrow> tasks_inv n (foldl (step result_of) st evs)) \<and>
         (results_inv result_of st \<longrightarrow> results_inv result_of (foldl (step result_of) st evs))"
proof (induction evs arbitrary: st)
  case Nil
  show ?case by simp
next
  case (Cons ev evs)
  from Cons [of "step result_of st ev"] show ?case
    by (auto intro: step_permits step_tasks step_results idx)
qed

lemma create_jobs_inv:
  assumes "create_jobs env dir allowAny js i (st, paths) = Inr (st', paths')"
  shows "(permits_inv k st \<longrightarrow> permits_inv k st') \<and>
         (tasks_inv i st \<longrightarrow> tasks_inv (i + length js) st') \<and>
         (results_inv result_of st \<longrightarrow> results_inv result_of st') \<and>
         recorded st' = recorded st \<and> timedOut st' = timedOut st \<and> rejected st' = rejected st"
  using assms
proof (induction js arbitrary: i st paths)
  case Nil
  then show ?case by simp
next
  case (Cons job js)
  from Cons.prems obtain p where
    rest: "create_jobs env dir allowAny js (i + 1) (launch i st, paths @ [p]) = Inr (st', paths')"
    by (auto split: sum.splits)
  have f: "recorded (launch i st) = recorded st \<and> timedOut (launch i st) = timedOut st \<and>
      rejected (launch i st) = rejected st"
    by (simp add: launch_def acquire_def)
  note ih = Cons.IH [OF rest]
  have p: "permits_inv k st \<longrightarrow> permits_inv k st'"
    using ih launch_permits [of k st i] by blast
  have t: "tasks_inv i st \<longrightarrow> tasks_inv (i + length (job # js)) st'"
    using ih launch_tasks [of i st] by (simp add: add.assoc)
  have r: "results_inv result_of st \<longrightarrow> results_inv result_of st'"
    using ih launch_results [of result_of st i] by blast
  from p t r ih f show ?case by simp
qed

subsection \<open>Concurrency\<close>

lemma job_result_index: "index (job_result apiKey world config paths i) = i + 1"
  by (simp add: job_result_def executeJob_index)

lemma init_state_inv:
  "(0 \<le> k \<longrightarrow> permits_inv k (init_state k)) \<and> tasks_inv 0 (init_state k) \<and>
   results_inv result_of (init_state k)"
  by (simp add: permits_inv_def tasks_inv_def results_inv_def init_state_def new_Semaphore_def)

lemma batch_state_after_inv:
  assumes "batch_state_after apiKey world config options env events = Inr st"
  obtains st0 paths where
    "create_jobs env (outputDir env config) (nullish (allowAnyPath options) False)
       (jobs config) 0 (init_state (maxConcurrent config), []) = Inr (st0, paths)"
    and "st = foldl (step (job_result apiKey world config paths)) st0 events"
    and "tasks_inv (length (jobs config)) st"
    and "results_inv (job_result apiKey world config paths) st"
    and "0 \<le> maxConcurrent config \<longrightarrow> permits_inv (maxConcurrent config) st"
proof -
  let ?k = "maxConcurrent config"
  from assms obtain st0 paths where
    cj: "create_jobs env (outputDir env config) (nullish (allowAnyPath options) False)
           (jobs config) 0 (init_state ?k, []) = Inr (st0, paths)"
    and st: "st = foldl (step (job_result apiKey world config paths)) st0 events"
    by (auto simp: batch_state_after_def split: sum.splits)
  let ?r = "job_result apiKey world config paths"
  note c = create_jobs_inv [OF cj, of ?k ?r] init_state_inv [of ?k ?r]
  note e = events_inv [of ?r ?k st0 events "length (jobs config)", OF job_result_index]
  from c e have "(0 \<le> ?k \<longrightarrow> permits_inv ?k st)" and "tasks_inv (length (jobs config)) st"
    and "results_inv ?r st"
    by (simp_all add: st)
  with cj st that show ?thesis by blast
qed



text \<open>The run of three jobs that times out, evaluated: the state at finalization and the
  results of the report.\<close>

lemma timed_out_run:
  "batch_state_after ''key'' second_invalid three_jobs_config example_options example_env
     timed_out_events = Inr timed_out_state"
  by code_simp

lemma timed_out_report:
  "results (finalize three_jobs_config (recorded timed_out_state)) =
     [first_completed, second_failed, cancelled_result three_jobs_config 2]"
  by code_simp



text \<open>
  Claim C10. Whenever \<^verbatim>\<open>executeBatch\<close> returns a report, its \<^verbatim>\<open>estimated_cost\<close> is
  the lower bound \<^verbatim>\<open>estimatedCostMin\<close> of \<^verbatim>\<open>estimateBatchCost\<close> on the
  configuration it was given; a second run on the same configuration with another key,
  other executors, options, environment and events reports the same figure.
\<close>

theorem executeBatch_estimated_cost:
  assumes "executeBatch apiKey world config options env events = Inr rep"
    and "executeBatch apiKey' world' config options' env' events' = Inr rep'"
  shows "estimated_cost rep = Some (estimatedCostMin (estimateBatchCost config)) \<and>
         estimated_cost rep' = estimated_cost rep"
  using assms
  by (auto simp: executeBatch_def finalize_def Let_def split: sum.splits option.splits)

subsection \<open>The report\<close>

lemma mark_cancelled_indices:
  assumes "tasks_inv (length (jobs config)) st"
  shows "distinct (map index (mark_cancelled config (recorded st))) \<and>
         set (map index (mark_cancelled config (recorded st))) = {1..<length (jobs config) + 1}"
proof -
  let ?N = "length (jobs config)"
  define I where "I = map index (recorded st)"
  define missing where "missing = filter (\<lambda>i. i + 1 \<notin> set I) [0..<?N]"
  have eq: "map index (mark_cancelled config (recorded st)) = I @ map Suc missing"
    by (simp add: mark_cancelled_def cancelled_result_def I_def missing_def comp_def)
  from assms have dI: "distinct I" and rI: "\<forall>x \<in> set I. 1 \<le> x \<and> x \<le> ?N"
    by (auto simp: tasks_inv_def list_all_iff I_def)
  have dm: "distinct (map Suc missing)"
    by (simp add: distinct_map missing_def)
  have disj: "set I \<inter> set (map Suc missing) = {}"
    by (auto simp: missing_def)
  have sub: "set (map Suc missing) \<subseteq> {1..<?N + 1}"
    by (auto simp: missing_def)
  have sup: "{1..<?N + 1} \<subseteq> set I \<union> set (map Suc missing)"
  proof
    fix j assume j: "j \<in> {1..<?N + 1}"
    show "j \<in> set I \<union> set (map Suc missing)"
    proof (cases "j \<in> set I")
      case True
      then show ?thesis by simp
    next
      case False
      with j have "j - 1 \<in> set missing" by (auto simp: missing_def)
      then have "Suc (j - 1) \<in> set (map Suc missing)" by simp
      with j show ?thesis by simp
    qed
  qed
  from dI dm disj have "distinct (I @ map Suc missing)" by simp
  moreover from rI sub sup have "set (I @ map Suc missing) = {1..<?N + 1}" by auto
  ultimately show ?thesis by (simp only: eq) 
qed

lemma finalize_indices:
  assumes "tasks_inv (length (jobs config)) st"
  shows "map index (results (finalize config (recorded st))) = [1..<length (jobs config) + 1]"
proof -
  let ?xs = "mark_cancelled config (recorded st)"
  let ?ys = "sort_key index ?xs"
  from mark_cancelled_indices [OF assms] have d: "distinct (map index ?xs)"
    and s: "set (map index ?xs) = {1..<length (jobs config) + 1}" by simp_all
  have "sorted (map index ?ys)" by (rule sorted_sort_key)
  moreover from d have "distinct (map index ?ys)" by (simp add: distinct_map)
  moreover from s have "set (map index ?ys) = set [1..<length (jobs config) + 1]"
    by (simp del: upt_Suc)
  ultimately have "map index ?ys = [1..<length (jobs config) + 1]"
    by (intro sorted_distinct_set_unique) (simp_all del: upt_Suc)
  then show ?thesis by (simp add: finalize_def Let_def)
qed

lemma finalize_nth:
  assumes "tasks_inv (length (jobs config)) st"
    and "x \<in> set (mark_cancelled config (recorded st))"
  shows "results (finalize config (recorded st)) ! (index x - 1) = x"
proof -
  let ?ys = "results (finalize config (recorded st))"
  note ind = finalize_indices [OF assms(1)]
  then have len: "length ?ys = length (jobs config)"
    by (metis length_map length_upt add_diff_cancel_right')
  from assms(2) have "x \<in> set ?ys" by (simp add: finalize_def Let_def)
  then obtain m where m: "m < length ?ys" "?ys ! m = x" by (auto simp: in_set_conv_nth)
  from m len have "index (?ys ! m) = [1..<length (jobs config) + 1] ! m"
    by (metis ind nth_map)
  with m len have "index x = m + 1" by (simp del: upt_Suc)
  with m show ?thesis by simp
qed

text \<open>
  Claim C4. When every output path resolves and no job promise rejects before the
  timeout, \<^verbatim>\<open>executeBatch\<close> returns a report, whatever the events were (the timeout
  among them or not). The indices of its results are 1, ..., N in this order, N the
  number of jobs. Every result recorded before finalization is in the report unchanged,
  at the place of its index. Every job without a recorded result has, at its place, the
  result with status \<open>cancelled\<close> and the error \<^verbatim>\<open>Job cancelled due to timeout\<close>.
\<close>

theorem executeBatch_one_outcome_per_job:
  assumes "batch_state_after apiKey world config options env events = Inr st"
    and "rejected st = None"
  shows "\<exists>rep. executeBatch apiKey world config options env events = Inr rep \<and>
           map index (results rep) = [1..<length (jobs config) + 1] \<and>
           (\<forall>r \<in> set (recorded st). results rep ! (index r - 1) = r) \<and>
           (\<forall>i < length (jobs config). i + 1 \<notin> set (map index (recorded st)) \<longrightarrow>
              results rep ! i = cancelled_result config i \<and>
              status (results rep ! i) = cancelled \<and>
              error (results rep ! i) = Some ''Job cancelled due to timeout'')"
proof -
  let ?rep = "finalize config (recorded st)"
  from assms have ret: "executeBatch apiKey world config options env events = Inr ?rep"
    by (simp add: executeBatch_def)
  from assms(1) have t: "tasks_inv (length (jobs config)) st"
    by (rule batch_state_after_inv)
  have kept: "\<forall>r \<in> set (recorded st). results ?rep ! (index r - 1) = r"
  proof
    fix r assume "r \<in> set (recorded st)"
    then have "r \<in> set (mark_cancelled config (recorded st))" by (simp add: mark_cancelled_def)
    with t show "results ?rep ! (index r - 1) = r" by (rule finalize_nth)
  qed
  have canc: "\<forall>i < length (jobs config). i + 1 \<notin> set (map index (recorded st)) \<longrightarrow>
              results ?rep ! i = cancelled_result config i \<and>
              status (results ?rep ! i) = cancelled \<and>
              error (results ?rep ! i) = Some ''Job cancelled due to timeout''"
  proof (intro allI impI)
    fix i assume i: "i < length (jobs config)" and n: "i + 1 \<notin> set (map index (recorded st))"
    then have "cancelled_result config i \<in> set (mark_cancelled config (recorded st))"
      by (simp add: mark_cancelled_def)
    from finalize_nth [OF t this] have "results ?rep ! i = cancelled_result config i"
      by (simp add: cancelled_result_def)
    then show "results ?rep ! i = cancelled_result config i \<and>
              status (results ?rep ! i) = cancelled \<and>
              error (results ?rep ! i) = Some ''Job cancelled due to timeout''"
      by (simp add: cancelled_result_def)
  qed
  from ret finalize_indices [OF t] kept canc show ?thesis by blast
qed

theorem executeBatch_one_outcome_per_job_witness:
  "(case executeBatch ''key'' second_invalid three_jobs_config example_options example_env
           timed_out_events of
      Inl e \<Rightarrow> False
    | Inr rep \<Rightarrow>
        map index (results rep) = [1, 2, 3] \<and>
        results rep ! 0 = first_completed \<and>
        results rep ! 1 = second_failed \<and>
        status (results rep ! 2) = cancelled \<and>
        error (results rep ! 2) = Some ''Job cancelled due to timeout'')"
proof -
  have rj: "rejected timed_out_state = None"
    by (simp add: timed_out_state_def)
  have n: "length (jobs three_jobs_config) = 3"
    by (simp add: three_jobs_config_def example_config_def)
  have rec: "recorded timed_out_state = [first_completed, second_failed]"
    "index first_completed = 1" "index second_failed = 2"
    by (simp_all add: timed_out_state_def first_completed_def second_failed_def
        completed_result_def failed_result_def)
  from executeBatch_one_outcome_per_job [OF timed_out_run rj]
  obtain rep where rep:
    "executeBatch ''key'' second_invalid three_jobs_config example_options example_env
       timed_out_events = Inr rep"
    "map index (results rep) = [1..<length (jobs three_jobs_config) + 1]"
    "\<forall>r \<in> set (recorded timed_out_state). results rep ! (index r - 1) = r"
    "\<forall>i < length (jobs three_jobs_config).
       i + 1 \<notin> set (map index (recorded timed_out_state)) \<longrightarrow>
         results rep ! i = cancelled_result three_jobs_config i \<and>
         status (results rep ! i) = cancelled \<and>
         error (results rep ! i) = Some ''Job cancelled due to timeout''"
    by blast
  from rep(2) n have i: "map index (results rep) = [1, 2, 3]"
    by (simp add: upt_rec)
  from rep(3) rec have k: "results rep ! 0 = first_completed" "results rep ! 1 = second_failed"
    by simp_all
  from rep(4) [rule_format, of 2] n rec have c: "status (results rep ! 2) = cancelled"
    "error (results rep ! 2) = Some ''Job cancelled due to timeout''"
    by (simp_all add: cancelled_result_def)
  from rep(1) i k c show ?thesis by simp
qed


theorem executeBatch_estimated_cost_witness:
  "(case executeBatch ''key'' second_invalid three_jobs_config example_options example_env
           timed_out_events of
      Inl e \<Rightarrow> False
    | Inr rep \<Rightarrow> estimated_cost rep = Some (3 / 4)) \<and>
   estimatedCostMin (estimateBatchCost three_jobs_config) = 3 / 4 \<and>
   estimatedCostMax (estimateBatchCost three_jobs_config) = 9 / 10"
proof -
  have ret: "executeBatch ''key'' second_invalid three_jobs_config example_options example_env
       timed_out_events = Inr (finalize three_jobs_config (recorded timed_out_state))"
    by (simp add: executeBatch_def timed_out_run timed_out_state_def)
  have est: "estimatedCostMin (estimateBatchCost three_jobs_config) = 3 / 4 \<and>
    estimatedCostMax (estimateBatchCost three_jobs_config) = 9 / 10"
    by code_simp
  from executeBatch_estimated_cost [OF ret ret] est ret show ?thesis by simp
qed

subsection \<open>Errors of the executors stay with their job\<close>

lemma step_control:
  assumes "\<And>j. index (r j) = index (r' j)" and "control st = control st'"
  shows "control (step r st ev) = control (step r' st' ev)"
  using assms
  by (cases ev) (auto simp: control_def leave_def release_def split: list.splits)

lemma events_control:
  assumes "\<And>j. index (r j) = index (r' j)"
  shows "control st = control st' \<Longrightarrow>
         control (foldl (step r) st evs) = control (foldl (step r') st' evs)"
proof (induction evs arbitrary: st st')
  case Nil
  then show ?case by simp
next
  case (Cons ev evs)
  from step_control [OF assms Cons.prems] have "control (step r st ev) = control (step r' st' ev)" .
  then show ?case by (simp add: Cons.IH)
qed

lemma resolveOutputPath_error:
  "resolveOutputPath env job idx dir allowAny = Inl e \<Longrightarrow> \<exists>msg. e = BatchConfigError msg"
  by (auto simp: resolveOutputPath_def Let_def split: if_splits)

lemma create_jobs_error:
  "create_jobs env dir allowAny js i acc = Inl e \<Longrightarrow>
   \<exists>n < length js. resolveOutputPath env (js ! n) (i + n) dir allowAny = Inl e"
proof (induction js arbitrary: i acc)
  case Nil
  then show ?case by simp
next
  case (Cons job js)
  obtain st paths where acc: "acc = (st, paths)" by (cases acc)
  show ?case
  proof (cases "resolveOutputPath env job i dir allowAny")
    case (Inl e')
    with Cons.prems acc have "e' = e" by simp
    with Inl have "resolveOutputPath env ((job # js) ! 0) (i + 0) dir allowAny = Inl e" by simp
    then show ?thesis by blast
  next
    case (Inr p)
    with Cons.prems acc have "create_jobs env dir allowAny js (i + 1) (launch i st, paths @ [p]) = Inl e"
      by simp
    from Cons.IH [OF this] obtain n where "n < length js"
      "resolveOutputPath env (js ! n) (i + 1 + n) dir allowAny = Inl e" by blast
    then have "Suc n < length (job # js)"
      "resolveOutputPath env ((job # js) ! Suc n) (i + Suc n) dir allowAny = Inl e" by simp_all
    then show ?thesis by blast
  qed
qed

lemma rejected_kept:
  "rejected st = Some m \<or> timedOut st \<Longrightarrow>
   rejected (foldl (step r) st evs) = rejected st"
proof (induction evs arbitrary: st)
  case Nil
  then show ?case by simp
next
  case (Cons ev evs)
  have keep: "rejected (step r st ev) = rejected st"
    and pre: "rejected (step r st ev) = Some m \<or> timedOut (step r st ev)"
    using Cons.prems by (cases ev; auto simp: leave_fields)+
  from Cons.IH [OF pre] keep show ?case by simp
qed

lemma rejected_origin:
  "rejected (foldl (step r) st evs) = Some n \<Longrightarrow> rejected st = None \<Longrightarrow> \<not> timedOut st \<Longrightarrow>
   \<exists>pre post. evs = pre @ Crash n # post \<and> Timeout \<notin> set pre"
proof (induction evs arbitrary: st)
  case Nil
  then show ?case by simp
next
  case (Cons ev evs)
  show ?case
  proof (cases ev)
    case Timeout
    then have "timedOut (step r st ev)" "rejected (step r st ev) = None"
      using Cons.prems by simp_all
    with rejected_kept [of "step r st ev" n r evs] Cons.prems show ?thesis by simp
  next
    case (Finish j)
    then have "rejected (step r st ev) = None" "\<not> timedOut (step r st ev)"
      using Cons.prems by (simp_all add: leave_fields)
    with Cons.IH [of "step r st ev"] Cons.prems obtain pre post where
      "evs = pre @ Crash n # post" "Timeout \<notin> set pre" by auto
    with Finish have "ev # evs = (ev # pre) @ Crash n # post" "Timeout \<notin> set (ev # pre)" by simp_all
    then show ?thesis by blast
  next
    case (Crash j)
    show ?thesis
    proof (cases "j \<in> set (executing st)")
      case True
      with Crash Cons.prems have "rejected (step r st ev) = Some j"
        by (simp add: leave_fields)
      with rejected_kept [of "step r st ev" j r evs] Cons.prems have "j = n" by simp
      with Crash have "ev # evs = [] @ Crash n # evs" "Timeout \<notin> set []" by simp_all
      then show ?thesis by blast
    next
      case False
      with Crash have same: "step r st ev = st" by simp
      with Cons.IH [of st] Cons.prems obtain pre post where
        "evs = pre @ Crash n # post" "Timeout \<notin> set pre" by auto
      with Crash have "ev # evs = (ev # pre) @ Crash n # post" "Timeout \<notin> set (ev # pre)" by simp_all
      then show ?thesis by blast
    qed
  qed
qed

lemma finalize_nth_cases:
  assumes "tasks_inv (length (jobs config)) st" and "results_inv r st"
    and "n < length (jobs config)"
  shows "results (finalize config (recorded st)) ! n =
           (if n + 1 \<in> set (map index (recorded st)) then r n else cancelled_result config n)"
proof (cases "n + 1 \<in> set (map index (recorded st))")
  case True
  then obtain x where x: "x \<in> set (recorded st)" "index x = n + 1" by auto
  with assms(2) have "x = r n" by (auto simp: results_inv_def list_all_iff)
  moreover from x have "x \<in> set (mark_cancelled config (recorded st))"
    by (simp add: mark_cancelled_def)
  from finalize_nth [OF assms(1) this] x have "results (finalize config (recorded st)) ! n = x"
    by simp
  ultimately show ?thesis using True by simp
next
  case False
  with assms(3) have "cancelled_result config n \<in> set (mark_cancelled config (recorded st))"
    by (simp add: mark_cancelled_def)
  from finalize_nth [OF assms(1) this] False show ?thesis
    by (simp add: cancelled_result_def)
qed

lemma finalize_length:
  assumes "tasks_inv (length (jobs config)) st"
  shows "length (results (finalize config (recorded st))) = length (jobs config)"
  using finalize_indices [OF assms]
  by (metis length_map length_upt add_diff_cancel_right')

text \<open>
  Claim C9. What the executors do never decides whether \<^verbatim>\<open>executeBatch\<close> throws, nor
  what it throws: with any other executors it throws the same error or returns as well.
  An error thrown by \<^verbatim>\<open>executeBatch\<close> is the \<^verbatim>\<open>BatchConfigError\<close> of an output path
  that does not resolve, or the rejection of a job promise that came before the
  timeout. And when the executors of two runs differ for one job only, the two reports
  have the same length and the same result for every other job.
\<close>

theorem executeBatch_contains_job_errors:
  "(executeBatch apiKey world' config options env events = Inl e \<longleftrightarrow>
      executeBatch apiKey world config options env events = Inl e) \<and>
   (executeBatch apiKey world config options env events = Inl e \<longrightarrow>
      (\<exists>n < length (jobs config). \<exists>msg. e = BatchConfigError msg \<and>
         resolveOutputPath env (jobs config ! n) n (outputDir env config)
           (nullish (allowAnyPath options) False) = Inl e) \<or>
      (\<exists>n pre post. e = InternalFault n \<and> events = pre @ Crash n # post \<and>
         Timeout \<notin> set pre)) \<and>
   ((\<forall>j. j \<noteq> i \<longrightarrow> world' j = world j) \<and>
    executeBatch apiKey world config options env events = Inr rep \<longrightarrow>
      (\<exists>rep'. executeBatch apiKey world' config options env events = Inr rep' \<and>
         length (results rep') = length (results rep) \<and>
         (\<forall>n < length (jobs config). n \<noteq> i \<longrightarrow> results rep' ! n = results rep ! n)))"
proof (cases "create_jobs env (outputDir env config) (nullish (allowAnyPath options) False)
                (jobs config) 0 (init_state (maxConcurrent config), [])")
  case (Inl e0)
  then have thrown: "\<And>w. executeBatch apiKey w config options env events = Inl e0"
    by (simp add: executeBatch_def batch_state_after_def)
  from create_jobs_error [OF Inl] obtain n where n: "n < length (jobs config)"
    "resolveOutputPath env (jobs config ! n) n (outputDir env config)
       (nullish (allowAnyPath options) False) = Inl e0" by auto
  from resolveOutputPath_error [OF n(2)] obtain msg where "e0 = BatchConfigError msg" ..
  with n thrown show ?thesis by auto
next
  case (Inr created)
  obtain st0 paths where created: "created = (st0, paths)" by (cases created)
  let ?r = "job_result apiKey world config paths"
  let ?r' = "job_result apiKey world' config paths"
  let ?st = "foldl (step ?r) st0 events"
  let ?st' = "foldl (step ?r') st0 events"
  let ?N = "length (jobs config)"
  from Inr created have cj: "create_jobs env (outputDir env config)
      (nullish (allowAnyPath options) False) (jobs config) 0
      (init_state (maxConcurrent config), []) = Inr (st0, paths)" by simp
  have run: "executeBatch apiKey world config options env events =
      (case rejected ?st of Some i \<Rightarrow> Inl (InternalFault i)
       | None \<Rightarrow> Inr (finalize config (recorded ?st)))"
    and run': "executeBatch apiKey world' config options env events =
      (case rejected ?st' of Some i \<Rightarrow> Inl (InternalFault i)
       | None \<Rightarrow> Inr (finalize config (recorded ?st')))"
    by (simp_all add: executeBatch_def batch_state_after_def cj)
  have "control ?st = control ?st'"
    by (rule events_control) (simp_all add: job_result_index)
  then have rej: "rejected ?st' = rejected ?st"
    and ind: "map index (recorded ?st') = map index (recorded ?st)"
    by (simp_all add: control_def)
  from create_jobs_inv [OF cj, of "maxConcurrent config" ?r]
    init_state_inv [of "maxConcurrent config" ?r]
  have st0: "tasks_inv ?N st0" "results_inv ?r st0" "rejected st0 = None" "\<not> timedOut st0"
    by (simp_all add: init_state_def)
  from create_jobs_inv [OF cj, of "maxConcurrent config" ?r']
    init_state_inv [of "maxConcurrent config" ?r']
  have st0': "results_inv ?r' st0" by simp
  from events_inv [of ?r "maxConcurrent config" st0 events ?N, OF job_result_index] st0
  have inv: "tasks_inv ?N ?st" "results_inv ?r ?st" by simp_all
  from events_inv [of ?r' "maxConcurrent config" st0 events ?N, OF job_result_index] st0 st0'
  have inv': "tasks_inv ?N ?st'" "results_inv ?r' ?st'" by simp_all
  have same: "executeBatch apiKey world' config options env events = Inl e \<longleftrightarrow>
      executeBatch apiKey world config options env events = Inl e"
    by (simp add: run run' rej split: option.splits)
  have origin: "executeBatch apiKey world config options env events = Inl e \<longrightarrow>
      (\<exists>n < length (jobs config). \<exists>msg. e = BatchConfigError msg \<and>
         resolveOutputPath env (jobs config ! n) n (outputDir env config)
           (nullish (allowAnyPath options) False) = Inl e) \<or>
      (\<exists>n pre post. e = InternalFault n \<and> events = pre @ Crash n # post \<and>
         Timeout \<notin> set pre)"
  proof
    assume "executeBatch apiKey world config options env events = Inl e"
    then obtain n where n: "rejected ?st = Some n" "e = InternalFault n"
      by (auto simp: run split: option.splits)
    from rejected_origin [OF n(1) st0(3,4)] n(2)
    show "(\<exists>n < length (jobs config). \<exists>msg. e = BatchConfigError msg \<and>
         resolveOutputPath env (jobs config ! n) n (outputDir env config)
           (nullish (allowAnyPath options) False) = Inl e) \<or>
      (\<exists>n pre post. e = InternalFault n \<and> events = pre @ Crash n # post \<and>
         Timeout \<notin> set pre)"
      by blast
  qed
  have isolated: "(\<forall>j. j \<noteq> i \<longrightarrow> world' j = world j) \<and>
    executeBatch apiKey world config options env events = Inr rep \<longrightarrow>
      (\<exists>rep'. executeBatch apiKey world' config options env events = Inr rep' \<and>
         length (results rep') = length (results rep) \<and>
         (\<forall>n < length (jobs config). n \<noteq> i \<longrightarrow> results rep' ! n = results rep ! n))"
  proof
    assume h: "(\<forall>j. j \<noteq> i \<longrightarrow> world' j = world j) \<and>
      executeBatch apiKey world config options env events = Inr rep"
    then have none: "rejected ?st = None" and rep: "rep = finalize config (recorded ?st)"
      by (auto simp: run split: option.splits)
    from none rej have ret': "executeBatch apiKey world' config options env events =
        Inr (finalize config (recorded ?st'))"
      by (simp add: run')
    have len: "length (results (finalize config (recorded ?st'))) = length (results rep)"
      by (simp add: rep finalize_length [OF inv(1)] finalize_length [OF inv'(1)])
    have nth: "\<forall>n < ?N. n \<noteq> i \<longrightarrow>
        results (finalize config (recorded ?st')) ! n = results rep ! n"
    proof (intro allI impI)
      fix n assume n: "n < ?N" "n \<noteq> i"
      with h have "?r' n = ?r n" by (simp add: job_result_def)
      with finalize_nth_cases [OF inv n(1)] finalize_nth_cases [OF inv' n(1)] ind
      show "results (finalize config (recorded ?st')) ! n = results rep ! n"
        by (simp add: rep)
    qed
    from ret' len nth
    show "\<exists>rep'. executeBatch apiKey world' config options env events = Inr rep' \<and>
         length (results rep') = length (results rep) \<and>
         (\<forall>n < length (jobs config). n \<noteq> i \<longrightarrow> results rep' ! n = results rep ! n)"
      by blast
  qed
  from same origin isolated show ?thesis by blast
qed

lemma crashed_run:
  "executeBatch ''key'' second_invalid three_jobs_config example_options example_env [Crash 0] =
     Inl (InternalFault 0)"
  by code_simp

theorem executeBatch_contains_job_errors_witness:
  "(case executeBatch ''key'' second_invalid three_jobs_config example_options example_env
           timed_out_events of
      Inl e \<Rightarrow> False
    | Inr rep \<Rightarrow> status (results rep ! 1) = failed \<and>
                 error (results rep ! 1) = Some ''Invalid prompt'') \<and>
   (case executeBatch ''key'' all_ok three_jobs_config example_options example_env
           timed_out_events of
      Inl e \<Rightarrow> False
    | Inr rep' \<Rightarrow> length (results rep') = 3 \<and> results rep' ! 0 = first_completed \<and>
                  results rep' ! 2 = cancelled_result three_jobs_config 2) \<and>
   executeBatch ''key'' all_ok three_jobs_config example_options example_env [Crash 0] =
     Inl (InternalFault 0) \<and>
   (\<exists>pre post. [Crash 0] = pre @ Crash 0 # post \<and> Timeout \<notin> set pre)"
proof -
  let ?rep = "finalize three_jobs_config (recorded timed_out_state)"
  have ret: "executeBatch ''key'' second_invalid three_jobs_config example_options example_env
       timed_out_events = Inr ?rep"
    by (simp add: executeBatch_def timed_out_run timed_out_state_def)
  have n: "length (jobs three_jobs_config) = 3"
    by (simp add: three_jobs_config_def example_config_def)
  have differ: "\<forall>j. j \<noteq> 1 \<longrightarrow> all_ok j = second_invalid j"
    by (simp add: all_ok_def second_invalid_def)
  from executeBatch_contains_job_errors [of "''key''" all_ok three_jobs_config example_options
      example_env timed_out_events "InternalFault 0" second_invalid 1 ?rep] differ ret
  obtain rep' where rep':
    "executeBatch ''key'' all_ok three_jobs_config example_options example_env
       timed_out_events = Inr rep'"
    "length (results rep') = length (results ?rep)"
    "\<forall>n < length (jobs three_jobs_config). n \<noteq> 1 \<longrightarrow> results rep' ! n = results ?rep ! n"
    by blast
  from rep'(2,3) n have other: "length (results rep') = 3"
    "results rep' ! 0 = first_completed"
    "results rep' ! 2 = cancelled_result three_jobs_config 2"
    by (simp_all add: timed_out_report)
  have failed: "status (results ?rep ! 1) = failed"
    "error (results ?rep ! 1) = Some ''Invalid prompt''"
    by (simp_all add: timed_out_report second_failed_def failed_result_def)
  from executeBatch_contains_job_errors [of "''key''" all_ok three_jobs_config example_options
      example_env "[Crash 0]" "InternalFault 0" second_invalid 1 ?rep] crashed_run
  have thrown: "executeBatch ''key'' all_ok three_jobs_config example_options example_env [Crash 0] =
      Inl (InternalFault 0)"
    and origin: "\<exists>pre post. [Crash 0] = pre @ Crash 0 # post \<and> Timeout \<notin> set pre"
    by auto
  from ret rep'(1) other failed thrown origin show ?thesis by simp
qed

end
